theory Spec2Isabelle
  imports Main
begin

section \<open>Header multimap (CIMultiDict)\<close>

text \<open>
  The request and response headers are a \<^verbatim>\<open>CIMultiDict\<close>: an ordered list of
  (name, value) pairs whose names compare case-insensitively and may repeat.
  Strings are byte strings here, so \<^verbatim>\<open>str.lower()\<close> is the ASCII lowering.
\<close>

type_synonym bytes = string
type_synonym header = "string \<times> string"
type_synonym headers = "header list"

definition lower_char :: "char \<Rightarrow> char" where
  "lower_char c =
     (let n = (of_char c :: nat) in if 65 \<le> n \<and> n \<le> 90 then char_of (n + 32) else c)"

definition lower :: "string \<Rightarrow> string" where
  "lower s = map lower_char s"

definition key_eq :: "string \<Rightarrow> string \<Rightarrow> bool" where
  "key_eq a b = (lower a = lower b)"

text \<open>\<^verbatim>\<open>d.get(key)\<close>: the value of the first pair stored under the key, if any.\<close>

fun get :: "headers \<Rightarrow> string \<Rightarrow> string option" where
  "get [] k = None"
| "get ((k', v) # hs) k = (if key_eq k' k then Some v else get hs k)"

text \<open>\<^verbatim>\<open>d.get(key, default)\<close>.\<close>

definition get_default :: "headers \<Rightarrow> string \<Rightarrow> string \<Rightarrow> string" where
  "get_default hs k d = (case get hs k of None \<Rightarrow> d | Some v \<Rightarrow> v)"

text \<open>\<^verbatim>\<open>key in d\<close>.\<close>

definition contains_key :: "headers \<Rightarrow> string \<Rightarrow> bool" where
  "contains_key hs k = (get hs k \<noteq> None)"

text \<open>
  \<^verbatim>\<open>d[key] = value\<close>: the first pair under the key is replaced in place and the
  later ones are dropped; an absent key is appended.
\<close>

fun remove_key :: "headers \<Rightarrow> string \<Rightarrow> headers" where
  "remove_key [] k = []"
| "remove_key ((k', v) # hs) k =
     (if key_eq k' k then remove_key hs k else (k', v) # remove_key hs k)"

fun setitem :: "headers \<Rightarrow> string \<Rightarrow> string \<Rightarrow> headers" where
  "setitem [] k v = [(k, v)]"
| "setitem ((k', v') # hs) k v =
     (if key_eq k' k then (k, v) # remove_key hs k else (k', v') # setitem hs k v)"

text \<open>\<^verbatim>\<open>sub in s\<close> on strings: \<open>sub\<close> occurs in \<open>s\<close> as a contiguous run.\<close>

fun startswith :: "string \<Rightarrow> string \<Rightarrow> bool" where
  "startswith s [] = True"
| "startswith [] (c # sub) = False"
| "startswith (d # s) (c # sub) = (d = c \<and> startswith s sub)"

fun str_in :: "string \<Rightarrow> string \<Rightarrow> bool" where
  "str_in sub [] = (sub = [])"
| "str_in sub (c # s) = (startswith (c # s) sub \<or> str_in sub s)"

text \<open>\<^verbatim>\<open>str(n)\<close> for a length: the decimal digits.\<close>

definition digit_char :: "nat \<Rightarrow> char" where
  "digit_char d = char_of (48 + d)"

function str_of_nat :: "nat \<Rightarrow> string" where
  "str_of_nat n = (if n < 10 then [digit_char n] else str_of_nat (n div 10) @ [digit_char (n mod 10)])"
  by pat_completeness auto
termination
  by (relation "measure id") auto

declare str_of_nat.simps [simp del]

abbreviation CONNECTION :: string where "CONNECTION \<equiv> ''Connection''"
abbreviation CONTENT_ENCODING :: string where "CONTENT_ENCODING \<equiv> ''Content-Encoding''"
abbreviation CONTENT_LENGTH :: string where "CONTENT_LENGTH \<equiv> ''Content-Length''"
abbreviation CONTENT_TYPE :: string where "CONTENT_TYPE \<equiv> ''Content-Type''"
abbreviation TRANSFER_ENCODING :: string where "TRANSFER_ENCODING \<equiv> ''Transfer-Encoding''"

section \<open>HTTP versions\<close>

text \<open>
  \<^verbatim>\<open>HttpVersion\<close> is a named tuple (major, minor); \<^verbatim>\<open><\<close> on it is the
  lexicographic order of tuples.
\<close>

type_synonym HttpVersion = "int \<times> int"

definition HttpVersion10 :: HttpVersion where "HttpVersion10 = (1, 0)"
definition HttpVersion11 :: HttpVersion where "HttpVersion11 = (1, 1)"

fun version_less :: "HttpVersion \<Rightarrow> HttpVersion \<Rightarrow> bool" where
  "version_less (a, b) (c, d) = (a < c \<or> (a = c \<and> b < d))"

section \<open>Exceptions\<close>

text \<open>
  The exceptions the code raises or handles. \<open>OSError errno timeout\<close> is a built-in
  OS error with its \<^verbatim>\<open>errno\<close> and whether it is an instance of
  \<^verbatim>\<open>asyncio.TimeoutError\<close>; \<open>OtherException\<close> is any other subclass of
  \<^verbatim>\<open>Exception\<close>; \<open>BaseException\<close> is one that is not a subclass of
  \<^verbatim>\<open>Exception\<close> (a keyboard interrupt, an interpreter exit).
\<close>

datatype error =
    ValueError string
  | TypeError string
  | AssertionError
  | AttributeError string
  | RuntimeError string
  | OSError "int option" bool
  | CancelledError
  | OtherException string
  | BaseException string
  | ClientOSError "int option" string
  | ClientConnectionError string
  | ServerFingerprintMismatch bytes bytes string nat

section \<open>Fingerprint\<close>

datatype hashfunc = MD5 | SHA1 | SHA256

definition HASHFUNC_BY_DIGESTLEN :: "nat \<rightharpoonup> hashfunc" where
  "HASHFUNC_BY_DIGESTLEN = [16 \<mapsto> MD5, 20 \<mapsto> SHA1, 32 \<mapsto> SHA256]"

record Fingerprint =
  hashfunc :: hashfunc
  fingerprint :: bytes

definition Fingerprint_init :: "bytes \<Rightarrow> error + Fingerprint" where
  "Fingerprint_init fp =
     (let digestlen = length fp
      in case HASHFUNC_BY_DIGESTLEN digestlen of
           None \<Rightarrow> Inl (ValueError ''fingerprint has invalid length'')
         | Some h \<Rightarrow>
             if h = MD5 \<or> h = SHA1
             then Inl (ValueError ''md5 and sha1 are insecure and not supported. Use sha256.'')
             else Inr \<lparr>hashfunc = h, fingerprint = fp\<rparr>)"

text \<open>
  What \<^verbatim>\<open>check\<close> asks of the transport through \<^verbatim>\<open>get_extra_info\<close>:
  whether an SSL context is reported, the SSL object (here: the peer certificate its
  \<^verbatim>\<open>getpeercert(binary_form=True)\<close> returns, if any) and the peer name.
  A missing entry is \<^verbatim>\<open>None\<close>.
\<close>

record transport =
  sslcontext :: bool
  ssl_object :: "bytes option option"
  peername :: "(string \<times> nat) option"

text \<open>
  \<^verbatim>\<open>Fingerprint.check(transport)\<close>. The hash functions of \<^verbatim>\<open>hashlib\<close> are a
  parameter: \<open>digest h cert\<close> is \<^verbatim>\<open>h(cert).digest()\<close>.
\<close>

definition check :: "(hashfunc \<Rightarrow> bytes \<Rightarrow> bytes) \<Rightarrow> Fingerprint \<Rightarrow> transport \<Rightarrow> error + unit" where
  "check digest self t =
     (if \<not> sslcontext t then Inr ()
      else case ssl_object t of
             None \<Rightarrow> Inl (AttributeError ''NoneType object has no attribute getpeercert'')
           | Some None \<Rightarrow> Inl (TypeError ''object supporting the buffer API required'')
           | Some (Some cert) \<Rightarrow>
               (let got = digest (hashfunc self) cert
                in if got \<noteq> fingerprint self then
                     (case peername t of
                        None \<Rightarrow> Inl (TypeError ''cannot unpack non-iterable NoneType object'')
                      | Some (host, port) \<Rightarrow>
                          Inl (ServerFingerprintMismatch (fingerprint self) got host port))
                   else Inr ()))"

text \<open>A transport over TLS as the handshake leaves it: context, peer certificate, peer name.\<close>

definition tls_transport :: "bytes \<Rightarrow> string \<Rightarrow> nat \<Rightarrow> transport" where
  "tls_transport cert host port =
     \<lparr>sslcontext = True, ssl_object = Some (Some cert), peername = Some (host, port)\<rparr>"

section \<open>ConnectionKey\<close>

text \<open>
  The TLS policy is an \<^verbatim>\<open>SSLContext\<close>, a boolean or a \<^verbatim>\<open>Fingerprint\<close>.
  Neither class defines \<^verbatim>\<open>__eq__\<close>, so two such objects are equal exactly when they
  are the same object; an object is represented by its identity.
\<close>

datatype ssl_policy = SSLContextObject nat | SSLBool bool | FingerprintObject nat


text \<open>A URL as far as the request looks into it; \<^verbatim>\<open>BasicAuth\<close> is a named tuple.\<close>

record URL =
  scheme :: string
  raw_host :: "string option"
  url_port :: "nat option"
  raw_path :: string

record BasicAuth =
  login :: string
  password :: string
  encoding :: string



section \<open>The draft request (ClientRequest)\<close>

text \<open>
  The \<^verbatim>\<open>compress\<close> argument is an optional string; the code also accepts any
  other truthy value (it then picks deflate), modelled by \<open>CompressBool\<close>.
\<close>

datatype compress_arg = CompressNone | CompressStr string | CompressBool bool

fun compress_truthy :: "compress_arg \<Rightarrow> bool" where
  "compress_truthy CompressNone = False"
| "compress_truthy (CompressStr s) = (s \<noteq> [])"
| "compress_truthy (CompressBool b) = b"

text \<open>
  A resolved payload (what \<^verbatim>\<open>PAYLOAD_REGISTRY.get\<close> returns): its optional
  known size, the headers it contributes, and the chunks its \<^verbatim>\<open>write\<close> hands to the
  stream writer.
\<close>

record payload =
  payload_size :: "nat option"
  payload_headers :: headers
  payload_chunks :: "bytes list"

text \<open>
  \<^verbatim>\<open>self.body\<close>: the class default is the empty byte string; after
  \<^verbatim>\<open>update_body_from_data\<close> it is a payload.
\<close>

datatype body = BodyBytes bytes | BodyPayload payload

record request =
  http_method :: string
  url :: URL
  version :: HttpVersion
  headers :: headers
  skip_auto_headers :: headers
  chunked :: "bool option"
  compress :: compress_arg
  body :: body
  ssl :: ssl_policy
  proxy :: "URL option"
  proxy_auth :: "BasicAuth option"
  proxy_headers :: "headers option"
  continue_waiter :: bool

definition GET_METHODS :: "string set" where
  "GET_METHODS = {''GET'', ''HEAD'', ''OPTIONS'', ''TRACE''}"

definition chunked_truthy :: "request \<Rightarrow> bool" where
  "chunked_truthy r = (chunked r = Some True)"

subsection \<open>connection\_key\<close>



subsection \<open>keep\_alive\<close>

definition keep_alive :: "request \<Rightarrow> bool" where
  "keep_alive r =
     (if version_less (version r) HttpVersion10 then False
      else if version r = HttpVersion10 then
        (if get (headers r) CONNECTION = Some ''keep-alive'' then True else False)
      else if get (headers r) CONNECTION = Some ''close'' then False
      else True)"

subsection \<open>Content-Encoding and Transfer-Encoding negotiation\<close>

text \<open>
  \<^verbatim>\<open>update_content_encoding(data)\<close>. Only whether \<open>data\<close> is \<^verbatim>\<open>None\<close>
  matters here, so the argument is the payload the data resolves to, if any.
\<close>

definition update_content_encoding :: "payload option \<Rightarrow> request \<Rightarrow> error + request" where
  "update_content_encoding data r =
     (case data of
        None \<Rightarrow> Inr r
      | Some _ \<Rightarrow>
          (let enc = lower (get_default (headers r) CONTENT_ENCODING [])
           in if enc \<noteq> [] then
                (if compress_truthy (compress r)
                 then Inl (ValueError ''compress can not be set if Content-Encoding header is set'')
                 else Inr r)
              else if compress_truthy (compress r) then
                (let c = (case compress r of CompressStr s \<Rightarrow> s | _ \<Rightarrow> ''deflate'')
                 in Inr (r\<lparr>compress := CompressStr c,
                           headers := setitem (headers r) CONTENT_ENCODING c,
                           chunked := Some True\<rparr>))
              else Inr r))"

text \<open>The loop that copies the payload's own headers, skipping names already set or skip-listed.\<close>

fun copy_payload_headers :: "headers \<Rightarrow> request \<Rightarrow> request" where
  "copy_payload_headers [] r = r"
| "copy_payload_headers ((k, v) # ph) r =
     (if contains_key (headers r) k then copy_payload_headers ph r
      else if contains_key (skip_auto_headers r) k then copy_payload_headers ph r
      else copy_payload_headers ph (r\<lparr>headers := setitem (headers r) k v\<rparr>))"

text \<open>
  \<^verbatim>\<open>update_body_from_data(body)\<close>, after the payload registry has resolved the data.
  \<^verbatim>\<open>assert body.headers\<close> fails on a payload with no headers.
\<close>

definition update_body_from_data :: "payload option \<Rightarrow> request \<Rightarrow> error + request" where
  "update_body_from_data data r =
     (case data of
        None \<Rightarrow> Inr r
      | Some p \<Rightarrow>
          (let r1 = r\<lparr>body := BodyPayload p\<rparr>;
               r2 = (if \<not> chunked_truthy r1 then
                       (if \<not> contains_key (headers r1) CONTENT_LENGTH then
                          (case payload_size p of
                             None \<Rightarrow> r1\<lparr>chunked := Some True\<rparr>
                           | Some n \<Rightarrow>
                               (if \<not> contains_key (headers r1) CONTENT_LENGTH
                                then r1\<lparr>headers := setitem (headers r1) CONTENT_LENGTH (str_of_nat n)\<rparr>
                                else r1))
                        else r1)
                     else r1)
           in if payload_headers p = [] then Inl AssertionError
              else Inr (copy_payload_headers (payload_headers p) r2)))"

text \<open>\<^verbatim>\<open>len(self.body)\<close>: defined on byte strings; a payload object has no length.\<close>

fun len_body :: "body \<Rightarrow> error + nat" where
  "len_body (BodyBytes b) = Inr (length b)"
| "len_body (BodyPayload p) = Inl (TypeError ''object of type Payload has no len()'')"

definition update_transfer_encoding :: "request \<Rightarrow> error + request" where
  "update_transfer_encoding r =
     (let te = lower (get_default (headers r) TRANSFER_ENCODING [])
      in if str_in ''chunked'' te then
           (if chunked_truthy r
            then Inl (ValueError ''chunked can not be set if Transfer-Encoding: chunked header is set'')
            else Inr r)
         else if chunked_truthy r then
           (if contains_key (headers r) CONTENT_LENGTH
            then Inl (ValueError ''chunked can not be set if Content-Length header is set'')
            else Inr (r\<lparr>headers := setitem (headers r) TRANSFER_ENCODING ''chunked''\<rparr>))
         else
           (if \<not> contains_key (headers r) CONTENT_LENGTH then
              (case len_body (body r) of
                 Inl e \<Rightarrow> Inl e
               | Inr n \<Rightarrow> Inr (r\<lparr>headers := setitem (headers r) CONTENT_LENGTH (str_of_nat n)\<rparr>))
            else Inr r))"

text \<open>
  The body and transfer-encoding steps of \<^verbatim>\<open>__init__\<close>, in its order:
  \<^verbatim>\<open>update_content_encoding(data)\<close>, \<^verbatim>\<open>update_body_from_data(data)\<close> and, when data
  is given or the method is not a no-body method, \<^verbatim>\<open>update_transfer_encoding()\<close>.
  The request passed in is the draft as the earlier steps (version, host, headers, default
  headers, cookies) left it, with the method in upper case; its body is still the class
  default \<^verbatim>\<open>b""\<close>. The calls in between (\<^verbatim>\<open>update_auth\<close>,
  \<^verbatim>\<open>update_proxy\<close>) write the Authorization header and the proxy fields only.
\<close>

definition request_init :: "payload option \<Rightarrow> request \<Rightarrow> error + request" where
  "request_init data r =
     (case update_content_encoding data (r\<lparr>body := BodyBytes []\<rparr>) of
        Inl e \<Rightarrow> Inl e
      | Inr r1 \<Rightarrow>
          (case update_body_from_data data r1 of
             Inl e \<Rightarrow> Inl e
           | Inr r2 \<Rightarrow>
               (if data \<noteq> None \<or> http_method r2 \<notin> GET_METHODS
                then update_transfer_encoding r2
                else Inr r2)))"

text \<open>The header set carries a Transfer-Encoding whose value names chunked.\<close>

definition te_chunked :: "headers \<Rightarrow> bool" where
  "te_chunked hs = str_in ''chunked'' (lower (get_default hs TRANSFER_ENCODING []))"


subsection \<open>Vocabulary of the negotiation claims\<close>

text \<open>Construction raised the configuration error (\<^verbatim>\<open>ValueError\<close>).\<close>

fun config_error :: "error + request \<Rightarrow> bool" where
  "config_error (Inl (ValueError m)) = True"
| "config_error _ = False"

text \<open>Every payload carries at least one header of its own (what \<^verbatim>\<open>assert body.headers\<close> expects).\<close>

definition data_well_formed :: "payload option \<Rightarrow> bool" where
  "data_well_formed data = (case data of None \<Rightarrow> True | Some p \<Rightarrow> payload_headers p \<noteq> [])"

definition data_te_chunked :: "payload option \<Rightarrow> bool" where
  "data_te_chunked data = (case data of None \<Rightarrow> False | Some p \<Rightarrow> te_chunked (payload_headers p))"

definition data_content_length :: "payload option \<Rightarrow> bool" where
  "data_content_length data =
     (case data of None \<Rightarrow> False | Some p \<Rightarrow> contains_key (payload_headers p) CONTENT_LENGTH)"

text \<open>The guard of \<^verbatim>\<open>__init__\<close> around \<^verbatim>\<open>update_transfer_encoding()\<close>.\<close>

definition transfer_checks_apply :: "payload option \<Rightarrow> request \<Rightarrow> bool" where
  "transfer_checks_apply data r = (data \<noteq> None \<or> http_method r \<notin> GET_METHODS)"

text \<open>
  The three header conflicts as the specification lists them, with no condition on the
  data or the method: a compress flag with a Content-Encoding header, a chunked flag with a
  Transfer-Encoding: chunked header, a chunked flag with a Content-Length header.
\<close>

definition spec_conflict :: "request \<Rightarrow> bool" where
  "spec_conflict r =
     ((compress_truthy (compress r) \<and> contains_key (headers r) CONTENT_ENCODING) \<or>
      (chunked_truthy r \<and> te_chunked (headers r)) \<or>
      (chunked_truthy r \<and> contains_key (headers r) CONTENT_LENGTH))"

text \<open>The exclusivity invariant: not both Content-Length and Transfer-Encoding: chunked.\<close>

definition exclusive :: "headers \<Rightarrow> bool" where
  "exclusive hs = (\<not> (contains_key hs CONTENT_LENGTH \<and> te_chunked hs))"

text \<open>
  The byte length of the body when it is known: the payload's size, or 0 for the empty
  default body of a request without data.
\<close>

definition known_length :: "payload option \<Rightarrow> nat option" where
  "known_length data = (case data of None \<Rightarrow> Some 0 | Some p \<Rightarrow> payload_size p)"

subsection \<open>Example requests\<close>

text \<open>A bare HTTP/1.1 GET for example.com, as the header steps of the constructor leave it.\<close>

definition example_get :: request where
  "example_get =
     \<lparr>http_method = ''GET'',
      url = \<lparr>scheme = ''http'', raw_host = Some ''example.com'', url_port = Some 80,
             raw_path = ''/''\<rparr>,
      version = HttpVersion11,
      headers = [(''Host'', ''example.com''), (''Accept'', ''*/*'')],
      skip_auto_headers = [], chunked = None, compress = CompressNone,
      body = BodyBytes [], ssl = SSLBool True, proxy = None, proxy_auth = None,
      proxy_headers = None, continue_waiter = False\<rparr>"

text \<open>A five-byte in-memory payload and a streaming payload of unknown size.\<close>

definition example_bytes_payload :: payload where
  "example_bytes_payload =
     \<lparr>payload_size = Some 5, payload_headers = [(CONTENT_TYPE, ''application/octet-stream'')],
      payload_chunks = [''hello'']\<rparr>"

definition example_stream_payload :: payload where
  "example_stream_payload =
     \<lparr>payload_size = None, payload_headers = [(CONTENT_TYPE, ''application/octet-stream'')],
      payload_chunks = [''he'', ''llo'']\<rparr>"

text \<open>A GET without data that sets a compress flag and a Content-Encoding header.\<close>

definition example_compress_get :: request where
  "example_compress_get =
     example_get\<lparr>compress := CompressStr ''gzip'',
       headers := [(''Host'', ''example.com''), (CONTENT_ENCODING, ''gzip'')]\<rparr>"

text \<open>A POST whose caller wrote a Transfer-Encoding: chunked header and set no flag.\<close>

definition example_te_post :: request where
  "example_te_post =
     example_get\<lparr>http_method := ''POST'',
       headers := [(''Host'', ''example.com''), (TRANSFER_ENCODING, ''chunked'')]\<rparr>"

definition example_post :: request where
  "example_post = example_get\<lparr>http_method := ''POST''\<rparr>"




text \<open>A 32-byte digest to pin, and a stand-in for the digest function that returns the
  certificate's first 32 bytes.\<close>

definition example_digest :: bytes where
  "example_digest = replicate 32 (CHR ''a'')"

definition example_hash :: "hashfunc \<Rightarrow> bytes \<Rightarrow> bytes" where
  "example_hash h cert = take 32 cert"

definition example_plain_transport :: transport where
  "example_plain_transport = \<lparr>sslcontext = False, ssl_object = None, peername = None\<rparr>"

text \<open>Digests of other lengths, and a certificate whose stand-in digest differs.\<close>

definition example_short_digest :: bytes where
  "example_short_digest = replicate 7 (CHR ''a'')"

definition example_md5_digest :: bytes where
  "example_md5_digest = replicate 16 (CHR ''a'')"

definition example_other_cert :: bytes where
  "example_other_cert = replicate 32 (CHR ''b'')"

section \<open>The response (ClientResponse)\<close>

subsection \<open>Collaborators\<close>

text \<open>
  Modelled from the spec: the content stream (\<^verbatim>\<open>StreamReader\<close>, not part of this
  file). It holds at most one stored exception; \<^verbatim>\<open>exception()\<close> returns it,
  \<^verbatim>\<open>set_exception\<close> stores one, and \<^verbatim>\<open>read()\<close> raises the stored exception if
  there is one. Otherwise a read to the end yields \<open>stream_result\<close>, the bytes the peer
  sends or the failure the parser meets. \<open>stream_eof\<close> says that the end of the
  payload has already been fed; \<open>stream_reads\<close> counts the calls of \<^verbatim>\<open>read()\<close>.
  The payload of a response without a body (\<open>stream_empty\<close>, the
  \<^verbatim>\<open>EmptyStreamReader\<close>) differs: its \<^verbatim>\<open>exception()\<close> is always
  \<^verbatim>\<open>None\<close>, its \<^verbatim>\<open>set_exception\<close> does nothing, its \<^verbatim>\<open>read()\<close> returns
  the empty byte string, and it is at its end from the start.
\<close>

record stream =
  stream_exception :: "error option"
  stream_result :: "error + bytes"
  stream_eof :: bool
  stream_reads :: nat
  stream_empty :: bool

definition exception_of :: "stream \<Rightarrow> error option" where
  "exception_of c = (if stream_empty c then None else stream_exception c)"

definition stream_set_exception :: "error \<Rightarrow> stream \<Rightarrow> stream" where
  "stream_set_exception e c = (if stream_empty c then c else c\<lparr>stream_exception := Some e\<rparr>)"

definition at_eof :: "stream \<Rightarrow> bool" where
  "at_eof c = (stream_empty c \<or> stream_eof c)"

record protocol =
  upgraded :: bool

record connection =
  conn_protocol :: "protocol option"

record RequestInfo =
  info_url :: string
  info_method :: string
  info_headers :: headers
  info_real_url :: string

text \<open>
  The writer task as the response sees it: whether it has completed, whether its
  cancellation was requested, and its done-callbacks in the order of registration.
  The response registers three kinds of callbacks: the bound \<^verbatim>\<open>__reset_writer\<close>, the
  lambda of \<^verbatim>\<open>_release_connection\<close>, and the wake-up of a coroutine suspended in
  \<^verbatim>\<open>await self._writer\<close> (in \<^verbatim>\<open>_wait_released\<close> or \<^verbatim>\<open>wait_for_close\<close>).
  The callbacks of other owners of the task (the request clears its own handle the same
  way) do not touch the response and are left out.
\<close>

datatype callback = Reset_writer | Release_connection | Wait_released | Wait_for_close

record task =
  task_done :: bool
  cancel_requested :: bool
  callbacks :: "callback list"

text \<open>What the connection receives from the response.\<close>

datatype pool_event = ConnRelease | ConnClose

text \<open>
  The state: the fields of the response, then the objects it shares with the event loop
  and the connector: the writer task, the loop's queue of scheduled callbacks, whether the
  loop is closed, and the calls made on the connection. \<open>writer\<close> says that the
  handle \<^verbatim>\<open>self.__writer\<close> is not \<^verbatim>\<open>None\<close>.
\<close>

record 'h state =
  status :: "int option"
  reason :: "string option"
  resp_headers :: "headers option"
  content :: "stream option"
  resp_body :: "bytes option"
  writer :: bool
  connection :: "connection option"
  closed :: bool
  released :: bool
  session :: bool
  continue100 :: bool
  request_info :: RequestInfo
  history :: "'h list"
  task :: task
  ready :: "callback list"
  loop_closed :: bool
  pool :: "pool_event list"

subsection \<open>The writer handle\<close>

text \<open>
  \<^verbatim>\<open>task.add_done_callback\<close>: on a completed task the callback is scheduled at once,
  otherwise it joins the task's callbacks.
\<close>

definition add_done_callback :: "callback \<Rightarrow> 'h state \<Rightarrow> 'h state" where
  "add_done_callback cb s =
     (if task_done (task s) then s\<lparr>ready := ready s @ [cb]\<rparr>
      else s\<lparr>task := (task s)\<lparr>callbacks := callbacks (task s) @ [cb]\<rparr>\<rparr>)"

definition remove_done_callback :: "callback \<Rightarrow> 'h state \<Rightarrow> 'h state" where
  "remove_done_callback cb s =
     s\<lparr>task := (task s)\<lparr>callbacks := filter (\<lambda>c. c \<noteq> cb) (callbacks (task s))\<rparr>\<rparr>"

text \<open>\<^verbatim>\<open>task.cancel()\<close> requests the cancellation of a task that has not completed.\<close>

definition cancel :: "'h state \<Rightarrow> 'h state" where
  "cancel s =
     (if task_done (task s) then s else s\<lparr>task := (task s)\<lparr>cancel_requested := True\<rparr>\<rparr>)"

definition reset_writer :: "'h state \<Rightarrow> 'h state" where
  "reset_writer s = s\<lparr>writer := False\<rparr>"

text \<open>The setter of \<^verbatim>\<open>_writer\<close>; the argument says whether a task is passed.\<close>

definition writer_setter :: "bool \<Rightarrow> 'h state \<Rightarrow> 'h state" where
  "writer_setter w s =
     (let s1 = (if writer s then remove_done_callback Reset_writer s else s);
          s2 = s1\<lparr>writer := w\<rparr>
      in if \<not> w then s2
         else if task_done (task s2) then reset_writer s2
         else add_done_callback Reset_writer s2)"

subsection \<open>Construction and start\<close>

text \<open>
  \<^verbatim>\<open>__init__\<close>: \<open>w\<close> says whether \<^verbatim>\<open>send()\<close> passes a task (it passes
  \<^verbatim>\<open>None\<close> when the task had already completed), \<open>sess\<close> whether a session is given.
\<close>

definition response_init :: "bool \<Rightarrow> bool \<Rightarrow> bool \<Rightarrow> RequestInfo \<Rightarrow> task \<Rightarrow> 'h state" where
  "response_init w sess cont info t =
     writer_setter w
       \<lparr>status = None, reason = None, resp_headers = None, content = None,
        resp_body = None, writer = False, connection = None, closed = True,
        released = False, session = sess, continue100 = cont, request_info = info,
        history = [], task = t, ready = [], loop_closed = False, pool = []\<rparr>"

definition notify_content :: "'h state \<Rightarrow> 'h state" where
  "notify_content s =
     (let s1 = (case content s of
                  None \<Rightarrow> s
                | Some c \<Rightarrow>
                    if exception_of c = None
                    then s\<lparr>content := Some (stream_set_exception
                           (ClientConnectionError ''Connection closed'') c)\<rparr>
                    else s)
      in s1\<lparr>released := True\<rparr>)"

definition cleanup_writer :: "'h state \<Rightarrow> 'h state" where
  "cleanup_writer s =
     (let s1 = (if writer s then cancel s else s)
      in s1\<lparr>session := False\<rparr>)"

definition release_connection :: "'h state \<Rightarrow> 'h state" where
  "release_connection s =
     (case connection s of
        None \<Rightarrow> s
      | Some c \<Rightarrow>
          if \<not> writer s
          then s\<lparr>pool := pool s @ [ConnRelease], connection := None\<rparr>
          else add_done_callback Release_connection s)"

text \<open>
  \<^verbatim>\<open>self._connection and self._connection.protocol\<close>, then
  \<^verbatim>\<open>protocol is not None and protocol.upgraded\<close>.
\<close>

definition protocol_upgraded :: "'h state \<Rightarrow> bool" where
  "protocol_upgraded s =
     (case connection s of
        None \<Rightarrow> False
      | Some c \<Rightarrow> (case conn_protocol c of None \<Rightarrow> False | Some p \<Rightarrow> upgraded p))"

definition response_eof :: "'h state \<Rightarrow> 'h state" where
  "response_eof s =
     (if closed s then s
      else if protocol_upgraded s then s
      else release_connection (cleanup_writer (s\<lparr>closed := True\<rparr>)))"

definition release :: "'h state \<Rightarrow> 'h state" where
  "release s =
     (let s1 = (if \<not> released s then notify_content s else s)
      in release_connection (cleanup_writer (s1\<lparr>closed := True\<rparr>)))"

definition close :: "'h state \<Rightarrow> 'h state" where
  "close s =
     (let s1 = (if \<not> released s then notify_content s else s);
          s2 = s1\<lparr>closed := True\<rparr>
      in if loop_closed s2 then s2
         else (let s3 = cleanup_writer s2
               in case connection s3 of
                    None \<Rightarrow> s3
                  | Some c \<Rightarrow> s3\<lparr>pool := pool s3 @ [ConnClose], connection := None\<rparr>))"

text \<open>
  The finalizer \<^verbatim>\<open>__del__\<close>: on a response that is not closed and still holds its
  connection it calls \<^verbatim>\<open>connection.release()\<close> at once, then
  \<^verbatim>\<open>_cleanup_writer()\<close>; it does not look at the writer handle and does not clear
  the connection. (The warning it emits when the loop is in debug mode is left out.)
\<close>

definition del_finalizer :: "'h state \<Rightarrow> 'h state" where
  "del_finalizer s =
     (if closed s then s
      else case connection s of
             None \<Rightarrow> s
           | Some c \<Rightarrow> cleanup_writer (s\<lparr>pool := pool s @ [ConnRelease]\<rparr>))"

text \<open>
  What \<^verbatim>\<open>protocol.read()\<close> hands to \<^verbatim>\<open>start\<close>: a parsed head with its payload
  stream, or a processing error (code, message, headers).
\<close>

record message =
  msg_version :: HttpVersion
  msg_code :: int
  msg_reason :: string
  msg_headers :: headers

datatype incoming = Parsed message stream | ProcessingError "int option" string "headers option"

text \<open>
  The response error (\<^verbatim>\<open>ClientResponseError\<close>) with what it carries, and what a
  method of the response raises: that error or one of the others.
\<close>

record 'h response_error =
  err_request_info :: RequestInfo
  err_history :: "'h list"
  err_status :: "int option"
  err_message :: string
  err_headers :: "headers option"

datatype 'h raised = ClientResponseError "'h response_error" | Raised error

text \<open>
  \<^verbatim>\<open>start(connection)\<close>, given the heads the protocol will deliver in order. Heads
  with a code in 100..199 other than 101 are skipped, resolving the 100-continue waiter.
  On the final head the end-of-payload callback is registered (a stream already at its
  end calls it at once) and the status line, the headers and the payload are recorded.
  \<open>None\<close>: the protocol has delivered no final head, \<^verbatim>\<open>start\<close> is still waiting.
  The version and the raw headers are recorded alongside and the Set-Cookie headers are
  loaded into the cookie jar; nothing here reads them. The timer context around the loop
  is a collaborator and is not represented.
\<close>

fun start_loop :: "incoming list \<Rightarrow> 'h state \<Rightarrow> (('h raised + message \<times> stream) \<times> 'h state) option" where
  "start_loop [] s = None"
| "start_loop (ProcessingError code msg hdrs # rest) s =
     Some (Inl (ClientResponseError
             \<lparr>err_request_info = request_info s, err_history = history s,
              err_status = code, err_message = msg, err_headers = hdrs\<rparr>), s)"
| "start_loop (Parsed m payload # rest) s =
     (if msg_code m < 100 \<or> msg_code m > 199 \<or> msg_code m = 101
      then Some (Inr (m, payload), s)
      else start_loop rest (if continue100 s then s\<lparr>continue100 := False\<rparr> else s))"

definition start :: "connection \<Rightarrow> incoming list \<Rightarrow> 'h state \<Rightarrow> (('h raised + unit) \<times> 'h state) option" where
  "start conn msgs s =
     (case start_loop msgs (s\<lparr>closed := False, connection := Some conn\<rparr>) of
        None \<Rightarrow> None
      | Some (Inl e, s1) \<Rightarrow> Some (Inl e, s1)
      | Some (Inr (m, payload), s1) \<Rightarrow>
          (let s2 = (if at_eof payload then response_eof s1 else s1)
           in Some (Inr (),
                s2\<lparr>status := Some (msg_code m), reason := Some (msg_reason m),
                   resp_headers := Some (msg_headers m), content := Some payload\<rparr>)))"

subsection \<open>ok and raise\_for\_status\<close>

text \<open>\<^verbatim>\<open>400 > self.status\<close>; comparing with \<^verbatim>\<open>None\<close> raises.\<close>

definition ok :: "'h state \<Rightarrow> error + bool" where
  "ok s =
     (case status s of
        None \<Rightarrow> Inl (TypeError ''> not supported between instances of int and NoneType'')
      | Some c \<Rightarrow> Inr (400 > c))"

definition raise_for_status :: "'h state \<Rightarrow> ('h raised + unit) \<times> 'h state" where
  "raise_for_status s =
     (case ok s of
        Inl e \<Rightarrow> (Inl (Raised e), s)
      | Inr True \<Rightarrow> (Inr (), s)
      | Inr False \<Rightarrow>
          (case reason s of
             None \<Rightarrow> (Inl (Raised AssertionError), s)
           | Some m \<Rightarrow>
               (let s1 = release s
                in (Inl (ClientResponseError
                      \<lparr>err_request_info = request_info s1, err_history = history s1,
                       err_status = status s1, err_message = m,
                       err_headers = resp_headers s1\<rparr>), s1))))"

subsection \<open>The event loop and the writer task\<close>

text \<open>The task completes: its done-callbacks are scheduled in their order.\<close>

definition task_finish :: "'h state \<Rightarrow> 'h state" where
  "task_finish s =
     s\<lparr>task := (task s)\<lparr>task_done := True, callbacks := []\<rparr>,
       ready := ready s @ callbacks (task s)\<rparr>"

text \<open>
  The loop runs a scheduled callback. A coroutine woken from \<^verbatim>\<open>await self._writer\<close>
  goes on with the statement after it: \<^verbatim>\<open>self._release_connection()\<close> in
  \<^verbatim>\<open>_wait_released\<close>, \<^verbatim>\<open>self.release()\<close> in \<^verbatim>\<open>wait_for_close\<close>.
\<close>

fun run_callback :: "callback \<Rightarrow> 'h state \<Rightarrow> 'h state" where
  "run_callback Reset_writer s = reset_writer s"
| "run_callback Release_connection s = release_connection s"
| "run_callback Wait_released s = release_connection s"
| "run_callback Wait_for_close s = release s"

text \<open>The loop runs the callbacks now in its queue, in their order.\<close>

definition run_ready :: "'h state \<Rightarrow> 'h state" where
  "run_ready s = fold run_callback (ready s) (s\<lparr>ready := []\<rparr>)"

text \<open>
  \<^verbatim>\<open>_wait_released\<close> and \<^verbatim>\<open>wait_for_close\<close> up to their suspension: with no writer
  handle they go on at once, otherwise the coroutine's wake-up joins the task's callbacks.
\<close>

definition wait_released_begin :: "'h state \<Rightarrow> 'h state" where
  "wait_released_begin s =
     (if writer s then add_done_callback Wait_released s else release_connection s)"

definition wait_for_close_begin :: "'h state \<Rightarrow> 'h state" where
  "wait_for_close_begin s =
     (if writer s then add_done_callback Wait_for_close s else release s)"

subsection \<open>read\<close>

text \<open>
  \<^verbatim>\<open>await self.content.read()\<close>. A read that succeeds has reached the end of the
  payload; if the end had not been fed before, it is fed during the read and the
  end-of-payload callback \<^verbatim>\<open>_response_eof\<close> runs.
\<close>

definition content_read :: "'h state \<Rightarrow> (error + bytes) \<times> 'h state" where
  "content_read s =
     (case content s of
        None \<Rightarrow> (Inl (AttributeError ''NoneType object has no attribute read''), s)
      | Some c \<Rightarrow>
          (let c1 = c\<lparr>stream_reads := stream_reads c + 1\<rparr>
           in if stream_empty c then (Inr [], s\<lparr>content := Some c1\<rparr>)
              else case stream_exception c of
                Some e \<Rightarrow> (Inl e, s\<lparr>content := Some c1\<rparr>)
              | None \<Rightarrow>
                  (case stream_result c of
                     Inl e \<Rightarrow> (Inl e, s\<lparr>content := Some (c1\<lparr>stream_exception := Some e\<rparr>)\<rparr>)
                   | Inr data \<Rightarrow>
                       (let s1 = s\<lparr>content := Some (c1\<lparr>stream_eof := True, stream_result := Inr []\<rparr>)\<rparr>
                        in (Inr data, if stream_eof c then s1 else response_eof s1)))))"

text \<open>
  \<^verbatim>\<open>await self._writer\<close> seen from the waiting coroutine: the task completes (if it has
  not yet) and the callbacks registered before the wake-up run.
\<close>

definition await_writer :: "'h state \<Rightarrow> 'h state" where
  "await_writer s = run_ready (if task_done (task s) then s else task_finish s)"

text \<open>
  \<^verbatim>\<open>_wait_released\<close>; \<open>outcome\<close> is the exception the awaited task raises into the
  waiting coroutine, if any (a cancelled task raises \<^verbatim>\<open>CancelledError\<close>).
\<close>

definition wait_released :: "error option \<Rightarrow> 'h state \<Rightarrow> error option \<times> 'h state" where
  "wait_released outcome s =
     (if writer s then
        (let s1 = await_writer s
         in case outcome of
              Some e \<Rightarrow> (Some e, s1)
            | None \<Rightarrow> (None, release_connection s1))
      else (None, release_connection s))"

text \<open>What the surroundings decide during a \<^verbatim>\<open>read()\<close>: whether a trace hook raises,
  and what awaiting the writer task raises.\<close>

record read_env =
  trace_error :: "error option"
  writer_outcome :: "error option"

definition read_finish :: "read_env \<Rightarrow> bytes \<Rightarrow> 'h state \<Rightarrow> (error + bytes) \<times> 'h state" where
  "read_finish env b s =
     (if \<not> protocol_upgraded s then
        (case wait_released (writer_outcome env) s of
           (Some e, s1) \<Rightarrow> (Inl e, s1)
         | (None, s1) \<Rightarrow> (Inr b, s1))
      else (Inr b, s))"

definition read :: "read_env \<Rightarrow> 'h state \<Rightarrow> (error + bytes) \<times> 'h state" where
  "read env s =
     (case resp_body s of
        None \<Rightarrow>
          (case content_read s of
             (Inl e, s1) \<Rightarrow> (Inl e, close s1)
           | (Inr data, s1) \<Rightarrow>
               (let s2 = s1\<lparr>resp_body := Some data\<rparr>
                in case trace_error env of
                     Some e \<Rightarrow> (Inl e, close s2)
                   | None \<Rightarrow> read_finish env data s2))
      | Some b \<Rightarrow>
          if released s then (Inl (ClientConnectionError ''Connection closed''), s)
          else read_finish env b s)"

subsection \<open>get\_encoding\<close>



subsection \<open>The life of a response\<close>

text \<open>
  One step of a response's life: a method the caller invokes, the end of the payload,
  the completion of the writer task, the loop running the next scheduled callback, or
  the finalizer running on a response that has been dropped.
  A coroutine woken from \<^verbatim>\<open>await self._writer\<close> goes on only if the task raised
  nothing into it; otherwise its wake-up is consumed with no further effect.
  \<^verbatim>\<open>read()\<close> appears through its parts: the read of the content stream, the close
  on a failure, the wait for the writer.
\<close>

inductive step :: "'h state \<Rightarrow> 'h state \<Rightarrow> bool" where
  step_start: "start conn msgs s = Some (res, s') \<Longrightarrow> step s s'"
| step_release: "step s (release s)"
| step_close: "step s (close s)"
| step_eof: "step s (response_eof s)"
| step_content_read: "step s (snd (content_read s))"
| step_raise_for_status: "step s (snd (raise_for_status s))"
| step_wait_released: "step s (wait_released_begin s)"
| step_wait_for_close: "step s (wait_for_close_begin s)"
| step_task_finish: "\<not> task_done (task s) \<Longrightarrow> step s (task_finish s)"
| step_callback: "ready s = cb # rest \<Longrightarrow> step s (run_callback cb (s\<lparr>ready := rest\<rparr>))"
| step_wakeup_raises:
    "ready s = cb # rest \<Longrightarrow> cb = Wait_released \<or> cb = Wait_for_close \<Longrightarrow>
     step s (s\<lparr>ready := rest\<rparr>)"
| step_loop_close: "step s (s\<lparr>loop_closed := True\<rparr>)"
| step_del: "step s (del_finalizer s)"

text \<open>
  The states a response can be in: \<^verbatim>\<open>send()\<close> builds it with the writer task it has
  just created, passing no handle only when that task has already completed, and the
  steps above follow.
\<close>

inductive reachable :: "'h state \<Rightarrow> bool" where
  reachable_init:
    "callbacks t = [] \<Longrightarrow> (\<not> w \<longrightarrow> task_done t) \<Longrightarrow> reachable (response_init w sess cont info t)"
| reachable_step: "reachable s \<Longrightarrow> step s s' \<Longrightarrow> reachable s'"

text \<open>The number of times the connection was handed back to the pool.\<close>

definition releases :: "'h state \<Rightarrow> nat" where
  "releases s = length (filter (\<lambda>e. e = ConnRelease) (pool s))"

text \<open>
  What holds of the writer handle in every state: a cleared handle or a scheduled callback
  means the task has completed, and as long as the handle is set the callback that clears
  it comes first, among the task's callbacks or, once the task has completed, in the
  loop's queue.
\<close>

fun reset_first :: "callback list \<Rightarrow> bool" where
  "reset_first (Reset_writer # cbs) = True"
| "reset_first cbs = False"

definition writer_invariant :: "'h state \<Rightarrow> bool" where
  "writer_invariant s =
     ((writer s \<or> task_done (task s)) \<and>
      (ready s = [] \<or> task_done (task s)) \<and>
      (task_done (task s) \<or> \<not> writer s \<or> reset_first (callbacks (task s))) \<and>
      (\<not> task_done (task s) \<or> \<not> writer s \<or> reset_first (ready s)) \<and>
      (\<not> task_done (task s) \<or> callbacks (task s) = []))"

subsection \<open>Vocabulary of the response claims\<close>

text \<open>The number of \<^verbatim>\<open>read()\<close> calls made on the content stream so far.\<close>

definition content_reads :: "'h state \<Rightarrow> nat" where
  "content_reads s = (case content s of None \<Rightarrow> 0 | Some c \<Rightarrow> stream_reads c)"





subsection \<open>Example responses\<close>

definition example_info :: RequestInfo where
  "example_info =
     \<lparr>info_url = ''http://example.com/'', info_method = ''POST'',
      info_headers = [(''Host'', ''example.com'')], info_real_url = ''http://example.com/''\<rparr>"

text \<open>A writer task still in flight, and the response \<^verbatim>\<open>send()\<close> builds with it.\<close>

definition example_pending_task :: task where
  "example_pending_task = \<lparr>task_done = False, cancel_requested = False, callbacks = []\<rparr>"

definition example_response :: "nat state" where
  "example_response = response_init True True False example_info example_pending_task"

text \<open>A payload stream that will deliver five bytes, and a 200 head with a text body.\<close>

definition example_stream :: stream where
  "example_stream =
     \<lparr>stream_exception = None, stream_result = Inr ''hello'', stream_eof = False,
      stream_reads = 0, stream_empty = False\<rparr>"

definition example_message :: message where
  "example_message =
     \<lparr>msg_version = (1, 1), msg_code = 200, msg_reason = ''OK'',
      msg_headers = [(CONTENT_TYPE, ''text/plain; charset=utf-8'')]\<rparr>"

definition example_connection :: connection where
  "example_connection = \<lparr>conn_protocol = Some \<lparr>upgraded = False\<rparr>\<rparr>"

text \<open>The response after \<^verbatim>\<open>start\<close> has read that head.\<close>

definition example_started :: "nat state" where
  "example_started =
     (case start example_connection [Parsed example_message example_stream] example_response of
        Some (res, s) \<Rightarrow> s
      | None \<Rightarrow> example_response)"

text \<open>
  That response released while its writer is in flight; then the task completes; then the
  loop runs the first callback, which clears the handle; then the second, which releases.
\<close>

definition example_released :: "nat state" where
  "example_released = release example_started"

definition example_finished :: "nat state" where
  "example_finished = task_finish example_released"

definition example_reset :: "nat state" where
  "example_reset = run_callback Reset_writer (example_finished\<lparr>ready := [Release_connection]\<rparr>)"

definition example_pooled :: "nat state" where
  "example_pooled = run_callback Release_connection (example_reset\<lparr>ready := []\<rparr>)"

text \<open>
  A started response whose payload stream has already stored a failure of the parser
  before anything was read.
\<close>

definition example_payload_failed :: "nat state" where
  "example_payload_failed =
     example_started\<lparr>content := Some (example_stream\<lparr>stream_exception :=
       Some (OtherException ''Response payload is not completed'')\<rparr>)\<rparr>"

text \<open>Surroundings in which no trace hook raises and the writer task raises nothing.\<close>

definition example_env :: read_env where
  "example_env = \<lparr>trace_error = None, writer_outcome = None\<rparr>"






text \<open>
  A request sent with \<^verbatim>\<open>Expect: 100-continue\<close>: the writer task is suspended on
  the waiter, and the peer answers 200 at once without a 100. The response is started and
  not closed, its writer in flight.
\<close>

definition example_expect_response :: "nat state" where
  "example_expect_response = response_init True True True example_info example_pending_task"

definition example_expect_started :: "nat state" where
  "example_expect_started =
     (case start example_connection [Parsed example_message example_stream]
             example_expect_response of
        Some (res, s) \<Rightarrow> s
      | None \<Rightarrow> example_expect_response)"

text \<open>A 204 response: its payload is the empty stream.\<close>

definition example_empty_stream :: stream where
  "example_empty_stream =
     \<lparr>stream_exception = None, stream_result = Inr [], stream_eof = True,
      stream_reads = 0, stream_empty = True\<rparr>"

definition example_no_content :: "nat state" where
  "example_no_content =
     (case start example_connection
             [Parsed (example_message\<lparr>msg_code := 204, msg_reason := ''No Content''\<rparr>)
                example_empty_stream] example_response of
        Some (res, s) \<Rightarrow> s
      | None \<Rightarrow> example_response)"

section \<open>The body writer (write\_bytes)\<close>

text \<open>
  What the body writer acts on: the chunks the stream writer has accepted, the drains,
  whether the end-of-body marker was written, whether the response timeout timer was
  started, and the protocol's deferred-exception slot (the exception and its cause).
\<close>

record wire =
  written :: "bytes list"
  drains :: nat
  eof_written :: bool
  timeout_started :: bool
  protocol_exception :: "(error \<times> error) option"

text \<open>
  What the surroundings decide while the body is written: what \<^verbatim>\<open>writer.drain()\<close>,
  the 100-continue waiter, the n-th write of a chunk and \<^verbatim>\<open>writer.write_eof()\<close>
  raise, if anything; and how the URL and the connection print.
\<close>

record write_env =
  drain_result :: "error option"
  continue_result :: "error option"
  write_result :: "nat \<Rightarrow> error option"
  eof_result :: "error option"
  url_str :: "URL \<Rightarrow> string"
  conn_str :: "connection \<Rightarrow> string"

text \<open>
  The exception classes the handlers tell apart: an instance of \<^verbatim>\<open>OSError\<close> with
  its \<^verbatim>\<open>errno\<close> and whether it is an \<^verbatim>\<open>asyncio.TimeoutError\<close>
  (\<^verbatim>\<open>ClientOSError\<close> is a subclass of \<^verbatim>\<open>OSError\<close>), and an instance of
  \<^verbatim>\<open>Exception\<close> (a cancellation is not one).
\<close>

fun os_error :: "error \<Rightarrow> (int option \<times> bool) option" where
  "os_error (OSError en t) = Some (en, t)"
| "os_error (ClientOSError en m) = Some (en, False)"
| "os_error e = None"

fun is_exception :: "error \<Rightarrow> bool" where
  "is_exception CancelledError = False"
| "is_exception (BaseException m) = False"
| "is_exception e = True"

text \<open>
  Modelled from the spec: \<^verbatim>\<open>helpers.set_exception(protocol, exc, cause)\<close> (not part
  of this file) stores the error in the protocol's deferred-exception slot.
\<close>

definition set_exception :: "error \<Rightarrow> error \<Rightarrow> wire \<Rightarrow> wire" where
  "set_exception exc cause w = w\<lparr>protocol_exception := Some (exc, cause)\<rparr>"

text \<open>
  The chunks the body is written in: a payload writes its own chunks, a byte string is
  written as one chunk.
\<close>

fun body_chunks :: "body \<Rightarrow> bytes list" where
  "body_chunks (BodyBytes b) = [b]"
| "body_chunks (BodyPayload p) = payload_chunks p"

text \<open>The streaming loop: \<open>n\<close> counts the writes; it stops at the first write that raises.\<close>

fun write_chunks :: "(nat \<Rightarrow> error option) \<Rightarrow> nat \<Rightarrow> bytes list \<Rightarrow> wire \<Rightarrow> error option \<times> wire" where
  "write_chunks res n [] w = (None, w)"
| "write_chunks res n (c # cs) w =
     (case res n of
        Some e \<Rightarrow> (Some e, w)
      | None \<Rightarrow> write_chunks res (Suc n) cs (w\<lparr>written := written w @ [c]\<rparr>))"

text \<open>\<^verbatim>\<open>await writer.write_eof()\<close>.\<close>

definition write_eof :: "write_env \<Rightarrow> wire \<Rightarrow> error option \<times> wire" where
  "write_eof env w =
     (case eof_result env of
        Some e \<Rightarrow> (Some e, w)
      | None \<Rightarrow> (None, w\<lparr>eof_written := True\<rparr>))"

text \<open>
  The wait for 100-continue before the body: the result is \<open>Inl\<close> when
  \<^verbatim>\<open>write_bytes\<close> ends there (it returns on a cancellation and lets any other
  exception out), \<open>Inr\<close> when the body is to be written.
\<close>

definition await_continue :: "write_env \<Rightarrow> request \<Rightarrow> wire \<Rightarrow> (error option \<times> wire) + wire" where
  "await_continue env r w =
     (if continue_waiter r then
        (case drain_result env of
           Some e \<Rightarrow> Inl (if e = CancelledError then None else Some e, w)
         | None \<Rightarrow>
             (let w1 = w\<lparr>drains := drains w + 1\<rparr>
              in case continue_result env of
                   Some e \<Rightarrow> Inl (if e = CancelledError then None else Some e, w1)
                 | None \<Rightarrow> Inr w1))
      else Inr w)"

text \<open>
  \<^verbatim>\<open>write_bytes(writer, conn)\<close>. The result is the exception that leaves the
  coroutine, if any, and the state of the wire. (The code also rebinds a byte-string body
  to a one-element tuple; the request is not written to otherwise.)
\<close>

definition write_bytes :: "write_env \<Rightarrow> request \<Rightarrow> connection \<Rightarrow> wire \<Rightarrow> error option \<times> wire" where
  "write_bytes env r conn w =
     (case await_continue env r w of
        Inl res \<Rightarrow> res
      | Inr w1 \<Rightarrow>
          (case conn_protocol conn of
             None \<Rightarrow> (Some AssertionError, w1)
           | Some protocol \<Rightarrow>
               (case write_chunks (write_result env) 0 (body_chunks (body r)) w1 of
                  (None, w2) \<Rightarrow>
                    (case write_eof env w2 of
                       (Some e, w3) \<Rightarrow> (Some e, w3)
                     | (None, w3) \<Rightarrow> (None, w3\<lparr>timeout_started := True\<rparr>))
                | (Some underlying_exc, w2) \<Rightarrow>
                    (case os_error underlying_exc of
                       Some (errno, timeout) \<Rightarrow>
                         (let exc_is_not_timeout = (errno \<noteq> None \<or> \<not> timeout);
                              reraised_exc =
                                (if exc_is_not_timeout
                                 then ClientOSError errno
                                   (''Can not write request body for '' @ url_str env (url r))
                                 else underlying_exc)
                          in (None, set_exception reraised_exc underlying_exc w2))
                     | None \<Rightarrow>
                         if underlying_exc = CancelledError then write_eof env w2
                         else if is_exception underlying_exc then
                           (None, set_exception
                              (ClientConnectionError
                                 (''Failed to send bytes into the underlying connection '' @
                                  conn_str env conn))
                              underlying_exc w2)
                         else (Some underlying_exc, w2)))))"

text \<open>The wire when the streaming of the body begins, and the outcome of the streaming.\<close>

definition streaming :: "write_env \<Rightarrow> request \<Rightarrow> wire \<Rightarrow> error option \<times> wire" where
  "streaming env r w =
     write_chunks (write_result env) 0 (body_chunks (body r))
       (if continue_waiter r then w\<lparr>drains := drains w + 1\<rparr> else w)"

text \<open>The 100-continue wait, if there is one, ends normally.\<close>

definition continue_passes :: "write_env \<Rightarrow> request \<Rightarrow> bool" where
  "continue_passes env r =
     (if continue_waiter r then drain_result env = None \<and> continue_result env = None else True)"

subsection \<open>Example writes\<close>

definition example_wire :: wire where
  "example_wire =
     \<lparr>written = [], drains = 0, eof_written = False, timeout_started = False,
      protocol_exception = None\<rparr>"

text \<open>A POST that streams two chunks, and surroundings in which nothing fails.\<close>

definition example_body_post :: request where
  "example_body_post = example_post\<lparr>body := BodyPayload example_stream_payload\<rparr>"

definition example_write_env :: write_env where
  "example_write_env =
     \<lparr>drain_result = None, continue_result = None, write_result = (\<lambda>n. None),
      eof_result = None, url_str = (\<lambda>u. ''http://example.com/''),
      conn_str = (\<lambda>c. ''Connection<example.com:80>'')\<rparr>"

text \<open>The second write fails: with a timeout, with a broken pipe (errno 32), with an
  error that is no OS error.\<close>

definition example_fail_env :: "error \<Rightarrow> write_env" where
  "example_fail_env e = example_write_env\<lparr>write_result := (\<lambda>n. if n = 1 then Some e else None)\<rparr>"


section \<open>Facts about the header multimap\<close>

lemma key_eq_refl [simp]: "key_eq k k"
  by (simp add: key_eq_def)

lemma key_eq_sym: "key_eq a b \<Longrightarrow> key_eq b a"
  by (simp add: key_eq_def)

lemma key_eq_trans: "key_eq a b \<Longrightarrow> key_eq b c \<Longrightarrow> key_eq a c"
  by (simp add: key_eq_def)

lemma key_eq_left: "key_eq a b \<Longrightarrow> key_eq a c = key_eq b c"
  by (auto simp: key_eq_def)

lemma get_key_eq: "key_eq k k' \<Longrightarrow> get hs k = get hs k'"
  by (induction hs) (auto simp: key_eq_def)

lemma get_remove_key_other: "\<not> key_eq k k' \<Longrightarrow> get (remove_key hs k) k' = get hs k'"
  by (induction hs) (auto simp: key_eq_def)

lemma get_setitem_same: "key_eq k k' \<Longrightarrow> get (setitem hs k v) k' = Some v"
  by (induction hs) (auto simp: key_eq_def)

lemma get_setitem_other: "\<not> key_eq k k' \<Longrightarrow> get (setitem hs k v) k' = get hs k'"
  by (induction hs) (auto simp: get_remove_key_other key_eq_def)

lemma get_setitem:
  "get (setitem hs k v) k' = (if key_eq k k' then Some v else get hs k')"
  by (simp add: get_setitem_same get_setitem_other)

lemma contains_key_setitem:
  "contains_key (setitem hs k v) k' = (key_eq k k' \<or> contains_key hs k')"
  by (simp add: contains_key_def get_setitem)

lemma get_Some_member: "get hs k = Some v \<Longrightarrow> \<exists>k'. (k', v) \<in> set hs \<and> key_eq k' k"
  by (induction hs) (auto split: if_splits)

lemma header_names_differ:
  "\<not> key_eq CONTENT_ENCODING TRANSFER_ENCODING"
  "\<not> key_eq CONTENT_ENCODING CONTENT_LENGTH"
  "\<not> key_eq CONTENT_LENGTH TRANSFER_ENCODING"
  "\<not> key_eq TRANSFER_ENCODING CONTENT_LENGTH"
  by code_simp+

lemma lower_Nil_iff [simp]: "lower s = [] \<longleftrightarrow> s = []"
  by (simp add: lower_def)

lemma not_chunked_in_empty [simp]: "\<not> str_in ''chunked'' []"
  by simp

lemma te_chunked_get:
  "te_chunked hs \<longleftrightarrow> (\<exists>v. get hs TRANSFER_ENCODING = Some v \<and> str_in ''chunked'' (lower v))"
  by (auto simp: te_chunked_def get_default_def lower_def split: option.splits)

lemma te_chunked_setitem_other:
  "\<not> key_eq k TRANSFER_ENCODING \<Longrightarrow> te_chunked (setitem hs k v) = te_chunked hs"
  by (simp add: te_chunked_def get_default_def get_setitem_other)

subsection \<open>The payload-header copy loop\<close>

lemma copy_payload_headers_fields [simp]:
  "chunked (copy_payload_headers ph r) = chunked r"
  "url (copy_payload_headers ph r) = url r"
  "body (copy_payload_headers ph r) = body r"
  "compress (copy_payload_headers ph r) = compress r"
  "http_method (copy_payload_headers ph r) = http_method r"
  "version (copy_payload_headers ph r) = version r"
  "skip_auto_headers (copy_payload_headers ph r) = skip_auto_headers r"
  by (induction ph r rule: copy_payload_headers.induct; simp)+

lemma copy_payload_headers_get:
  "get (headers (copy_payload_headers ph r)) k =
     (case get (headers r) k of
        Some v \<Rightarrow> Some v
      | None \<Rightarrow> if contains_key (skip_auto_headers r) k then None else get ph k)"
proof (induction ph r rule: copy_payload_headers.induct)
  case (1 r)
  then show ?case by (simp split: option.splits)
next
  case (2 k' v ph r)
  show ?case
  proof (cases "key_eq k' k")
    case True
    then have same: "get (headers r) k' = get (headers r) k"
      "get (skip_auto_headers r) k' = get (skip_auto_headers r) k"
      by (simp_all add: get_key_eq)
    with True 2 show ?thesis
      by (auto simp: contains_key_def get_setitem split: option.splits)
  next
    case False
    with 2 show ?thesis
      by (auto simp: contains_key_def get_setitem split: option.splits)
  qed
qed

lemma copy_payload_headers_keeps:
  "contains_key (headers r) k \<Longrightarrow>
   get (headers (copy_payload_headers ph r)) k = get (headers r) k"
  by (auto simp: copy_payload_headers_get contains_key_def split: option.splits)

lemma copy_payload_headers_te_chunked:
  "te_chunked (headers (copy_payload_headers ph r)) \<Longrightarrow> te_chunked (headers r) \<or> te_chunked ph"
  by (auto simp: te_chunked_get copy_payload_headers_get split: option.splits if_splits)

lemma copy_payload_headers_contains:
  "contains_key (headers (copy_payload_headers ph r)) k \<Longrightarrow>
   contains_key (headers r) k \<or> contains_key ph k"
  by (auto simp: contains_key_def copy_payload_headers_get split: option.splits if_splits)


section \<open>Keep-alive\<close>

text \<open>
  C2. \<^verbatim>\<open>keep_alive()\<close> is false for every version below HTTP/1.0; for HTTP/1.0 it is
  true exactly when the Connection header (the value the header lookup returns) is
  \<^verbatim>\<open>keep-alive\<close>, so false without the header; for HTTP/1.1 it is true
  exactly when the Connection header is not \<^verbatim>\<open>close\<close>, so true without the header.
\<close>

theorem keep_alive_matrix:
  "(version_less (version r) HttpVersion10 \<longrightarrow> \<not> keep_alive r) \<and>
   (version r = HttpVersion10 \<longrightarrow>
      (keep_alive r \<longleftrightarrow> get (headers r) CONNECTION = Some ''keep-alive'')) \<and>
   (version r = HttpVersion11 \<longrightarrow>
      (keep_alive r \<longleftrightarrow> get (headers r) CONNECTION \<noteq> Some ''close''))"
  by (simp add: keep_alive_def HttpVersion10_def HttpVersion11_def)

theorem keep_alive_matrix_witness:
  "\<not> keep_alive (example_get\<lparr>version := (0, 9)\<rparr>) \<and>
   keep_alive (example_get\<lparr>version := HttpVersion10,
                 headers := [(''Host'', ''example.com''), (''connection'', ''keep-alive'')]\<rparr>) \<and>
   \<not> keep_alive (example_get\<lparr>version := HttpVersion10\<rparr>) \<and>
   \<not> keep_alive (example_get\<lparr>headers := [(''Host'', ''example.com''), (CONNECTION, ''close'')]\<rparr>) \<and>
   keep_alive example_get"
proof -
  let ?ka = "[(''Host'', ''example.com''), (''connection'', ''keep-alive'')]"
  let ?cl = "[(''Host'', ''example.com''), (CONNECTION, ''close'')]"
  have v: "version_less (0, 9) HttpVersion10" "version example_get = HttpVersion11"
    by (simp_all add: HttpVersion10_def example_get_def)
  have g: "get ?ka CONNECTION = Some ''keep-alive''" "get ?cl CONNECTION = Some ''close''"
    "get (headers example_get) CONNECTION = None"
    unfolding example_get_def by code_simp+
  from v g
    keep_alive_matrix [of "example_get\<lparr>version := (0, 9)\<rparr>"]
    keep_alive_matrix [of "example_get\<lparr>version := HttpVersion10, headers := ?ka\<rparr>"]
    keep_alive_matrix [of "example_get\<lparr>version := HttpVersion10\<rparr>"]
    keep_alive_matrix [of "example_get\<lparr>headers := ?cl\<rparr>"]
    keep_alive_matrix [of example_get]
  show ?thesis by simp
qed


section \<open>Content-Encoding and Transfer-Encoding negotiation\<close>

lemma update_transfer_encoding_cases:
  "update_transfer_encoding r =
     (if te_chunked (headers r) then
        (if chunked_truthy r
         then Inl (ValueError ''chunked can not be set if Transfer-Encoding: chunked header is set'')
         else Inr r)
      else if chunked_truthy r then
        (if contains_key (headers r) CONTENT_LENGTH
         then Inl (ValueError ''chunked can not be set if Content-Length header is set'')
         else Inr (r\<lparr>headers := setitem (headers r) TRANSFER_ENCODING ''chunked''\<rparr>))
      else if \<not> contains_key (headers r) CONTENT_LENGTH then
        (case len_body (body r) of
           Inl e \<Rightarrow> Inl e
         | Inr n \<Rightarrow> Inr (r\<lparr>headers := setitem (headers r) CONTENT_LENGTH (str_of_nat n)\<rparr>))
      else Inr r)"
  by (simp add: update_transfer_encoding_def te_chunked_def Let_def)

lemma update_transfer_encoding_conflict:
  "chunked_truthy r \<Longrightarrow> te_chunked (headers r) \<or> contains_key (headers r) CONTENT_LENGTH \<Longrightarrow>
   config_error (update_transfer_encoding r)"
  by (auto simp: update_transfer_encoding_cases)

lemma update_transfer_encoding_exclusive:
  "update_transfer_encoding r = Inr r' \<Longrightarrow> \<not> te_chunked (headers r) \<Longrightarrow> exclusive (headers r')"
  by (auto simp: update_transfer_encoding_cases exclusive_def contains_key_setitem
      te_chunked_setitem_other header_names_differ split: if_splits sum.splits)

lemma update_content_encoding_Inr:
  assumes "update_content_encoding data r = Inr r1"
  shows "http_method r1 = http_method r" "body r1 = body r"
    "skip_auto_headers r1 = skip_auto_headers r"
    "chunked_truthy r \<Longrightarrow> chunked_truthy r1"
    "get (headers r1) TRANSFER_ENCODING = get (headers r) TRANSFER_ENCODING"
    "get (headers r1) CONTENT_LENGTH = get (headers r) CONTENT_LENGTH"
  using assms
  by (auto simp: update_content_encoding_def Let_def chunked_truthy_def get_setitem_other
      header_names_differ split: option.splits if_splits)

lemma update_content_encoding_no_compress:
  "\<not> compress_truthy (compress r) \<Longrightarrow> update_content_encoding data r = Inr r"
  by (simp add: update_content_encoding_def Let_def split: option.splits)

lemma update_content_encoding_conflict:
  "data \<noteq> None \<Longrightarrow> compress_truthy (compress r) \<Longrightarrow>
   get_default (headers r) CONTENT_ENCODING [] \<noteq> [] \<Longrightarrow>
   update_content_encoding data r =
     Inl (ValueError ''compress can not be set if Content-Encoding header is set'')"
  by (auto simp: update_content_encoding_def Let_def split: option.splits)

lemma update_body_from_data_Inr:
  assumes "update_body_from_data data r = Inr r2"
  shows "http_method r2 = http_method r"
    "chunked_truthy r \<Longrightarrow> chunked_truthy r2"
  using assms
  by (auto simp: update_body_from_data_def Let_def chunked_truthy_def
      split: option.splits if_splits)

lemma update_body_from_data_keeps:
  assumes "update_body_from_data data r = Inr r2" "contains_key (headers r) k"
  shows "get (headers r2) k = get (headers r) k"
  using assms get_key_eq [of CONTENT_LENGTH k "headers r"]
  by (auto simp: update_body_from_data_def Let_def copy_payload_headers_keeps
      contains_key_setitem get_setitem contains_key_def
      split: option.splits if_splits)

lemma update_body_from_data_succeeds:
  "data_well_formed data \<Longrightarrow> \<exists>r2. update_body_from_data data r = Inr r2"
  by (auto simp: update_body_from_data_def data_well_formed_def Let_def split: option.splits)

lemma update_body_from_data_te_chunked:
  assumes "update_body_from_data data r = Inr r2" "te_chunked (headers r2)"
  shows "te_chunked (headers r) \<or> data_te_chunked data"
  using assms
  by (auto simp: update_body_from_data_def Let_def data_te_chunked_def
      te_chunked_setitem_other header_names_differ
      dest!: copy_payload_headers_te_chunked split: option.splits if_splits)

lemma te_chunked_cong: "get hs TRANSFER_ENCODING = get hs' TRANSFER_ENCODING \<Longrightarrow> te_chunked hs = te_chunked hs'"
  by (simp add: te_chunked_def get_default_def)

lemma update_content_encoding_Inl:
  "update_content_encoding data r = Inl e \<Longrightarrow> config_error (Inl e)"
  by (auto simp: update_content_encoding_def Let_def split: option.splits if_splits)

lemma request_init_compress_conflict:
  assumes "data \<noteq> None" "compress_truthy (compress r)"
    "get_default (headers r) CONTENT_ENCODING [] \<noteq> []"
  shows "config_error (request_init data r)"
  using update_content_encoding_conflict [of data "r\<lparr>body := BodyBytes []\<rparr>"] assms
  by (simp add: request_init_def)

lemma request_init_chunked_conflict:
  assumes wf: "data_well_formed data" and app: "transfer_checks_apply data r"
    and ch: "chunked_truthy r"
    and hdr: "te_chunked (headers r) \<or> contains_key (headers r) CONTENT_LENGTH"
  shows "config_error (request_init data r)"
proof (cases "update_content_encoding data (r\<lparr>body := BodyBytes []\<rparr>)")
  case (Inl e)
  then show ?thesis
    using update_content_encoding_Inl [OF Inl] by (simp add: request_init_def)
next
  case (Inr r1)
  let ?r0 = "r\<lparr>body := BodyBytes []\<rparr>"
  have ch0: "chunked_truthy ?r0" using ch by (simp add: chunked_truthy_def)
  note f1 = update_content_encoding_Inr [OF Inr]
  from update_body_from_data_succeeds [OF wf] obtain r2
    where r2: "update_body_from_data data r1 = Inr r2" by blast
  have ch2: "chunked_truthy r2"
    using update_body_from_data_Inr(2) [OF r2] f1(4) ch0 by simp
  have m2: "http_method r2 = http_method r"
    using update_body_from_data_Inr(1) [OF r2] f1(1) by simp
  have "te_chunked (headers r2) \<or> contains_key (headers r2) CONTENT_LENGTH"
  proof -
    from hdr show ?thesis
    proof
      assume te: "te_chunked (headers r)"
      then have "contains_key (headers r1) TRANSFER_ENCODING"
        using f1(5) by (auto simp: contains_key_def te_chunked_get)
      then have "get (headers r2) TRANSFER_ENCODING = get (headers r) TRANSFER_ENCODING"
        using update_body_from_data_keeps [OF r2] f1(5) by simp
      with te show ?thesis using te_chunked_cong by blast
    next
      assume cl: "contains_key (headers r) CONTENT_LENGTH"
      then have "contains_key (headers r1) CONTENT_LENGTH"
        using f1(6) by (simp add: contains_key_def)
      then have "get (headers r2) CONTENT_LENGTH = get (headers r) CONTENT_LENGTH"
        using update_body_from_data_keeps [OF r2] f1(6) by simp
      with cl show ?thesis by (simp add: contains_key_def)
    qed
  qed
  then have "config_error (update_transfer_encoding r2)"
    using update_transfer_encoding_conflict [OF ch2] by simp
  then show ?thesis
    using Inr r2 m2 app by (simp add: request_init_def transfer_checks_apply_def)
qed

lemma request_init_Inr:
  assumes "request_init data r = Inr r'"
  obtains r1 r2 where "update_content_encoding data (r\<lparr>body := BodyBytes []\<rparr>) = Inr r1"
    and "update_body_from_data data r1 = Inr r2"
    and "data \<noteq> None \<or> http_method r2 \<notin> GET_METHODS \<Longrightarrow> update_transfer_encoding r2 = Inr r'"
    and "\<not> (data \<noteq> None \<or> http_method r2 \<notin> GET_METHODS) \<Longrightarrow> r' = r2"
proof (cases "update_content_encoding data (r\<lparr>body := BodyBytes []\<rparr>)")
  case (Inl e)
  with assms show ?thesis by (simp add: request_init_def)
next
  case r1: (Inr r1)
  show ?thesis
  proof (cases "update_body_from_data data r1")
    case (Inl e)
    with assms r1 show ?thesis by (simp add: request_init_def)
  next
    case r2: (Inr r2)
    show ?thesis
    proof (rule that [OF r1 r2])
      assume "data \<noteq> None \<or> http_method r2 \<notin> GET_METHODS"
      with assms r1 r2 show "update_transfer_encoding r2 = Inr r'"
        by (simp add: request_init_def)
    next
      assume "\<not> (data \<noteq> None \<or> http_method r2 \<notin> GET_METHODS)"
      with assms r1 r2 show "r' = r2"
        by (simp add: request_init_def)
    qed
  qed
qed

lemma request_init_exclusive:
  assumes ok: "request_init data r = Inr r'"
    and te: "\<not> te_chunked (headers r)" and dte: "\<not> data_te_chunked data"
  shows "exclusive (headers r')"
  using ok
proof (rule request_init_Inr)
  fix r1 r2
  assume r1: "update_content_encoding data (r\<lparr>body := BodyBytes []\<rparr>) = Inr r1"
    and r2: "update_body_from_data data r1 = Inr r2"
    and fin: "data \<noteq> None \<or> http_method r2 \<notin> GET_METHODS \<Longrightarrow> update_transfer_encoding r2 = Inr r'"
    and fin': "\<not> (data \<noteq> None \<or> http_method r2 \<notin> GET_METHODS) \<Longrightarrow> r' = r2"
  have "te_chunked (headers r1) = te_chunked (headers r)"
    by (rule te_chunked_cong) (simp add: update_content_encoding_Inr(5) [OF r1])
  then have te2: "\<not> te_chunked (headers r2)"
    using update_body_from_data_te_chunked [OF r2] te dte by blast
  show ?thesis
  proof (cases "data \<noteq> None \<or> http_method r2 \<notin> GET_METHODS")
    case True
    then have "update_transfer_encoding r2 = Inr r'" by (rule fin)
    then show ?thesis using te2 by (rule update_transfer_encoding_exclusive)
  next
    case False
    with fin' te2 show ?thesis by (simp add: exclusive_def)
  qed
qed

lemma update_body_from_data_None [simp]: "update_body_from_data None r = Inr r"
  by (simp add: update_body_from_data_def)

lemma update_body_from_data_Some:
  "payload_headers p \<noteq> [] \<Longrightarrow>
   update_body_from_data (Some p) r =
     Inr (copy_payload_headers (payload_headers p)
       (if chunked_truthy r \<or> contains_key (headers r) CONTENT_LENGTH
        then r\<lparr>body := BodyPayload p\<rparr>
        else (case payload_size p of
                None \<Rightarrow> r\<lparr>body := BodyPayload p, chunked := Some True\<rparr>
              | Some n \<Rightarrow> r\<lparr>body := BodyPayload p,
                    headers := setitem (headers r) CONTENT_LENGTH (str_of_nat n)\<rparr>)))"
  by (simp add: update_body_from_data_def Let_def chunked_truthy_def split: option.splits)

lemma request_init_plain_succeeds:
  assumes wf: "data_well_formed data" and nc: "\<not> compress_truthy (compress r)"
    and nk: "\<not> chunked_truthy r"
    and known: "case data of None \<Rightarrow> True
                | Some p \<Rightarrow> payload_size p \<noteq> None \<or> contains_key (headers r) CONTENT_LENGTH"
  shows "\<exists>r'. request_init data r = Inr r'"
proof -
  let ?r0 = "r\<lparr>body := BodyBytes []\<rparr>"
  have r1: "update_content_encoding data ?r0 = Inr ?r0"
    using nc by (simp add: update_content_encoding_no_compress)
  show ?thesis
  proof (cases data)
    case None
    have "\<exists>r'. update_transfer_encoding ?r0 = Inr r'"
      using nk by (simp add: update_transfer_encoding_cases chunked_truthy_def)
    then show ?thesis using r1 None by (auto simp: request_init_def)
  next
    case (Some p)
    then have ph: "payload_headers p \<noteq> []" using wf by (simp add: data_well_formed_def)
    define r2 where "r2 = copy_payload_headers (payload_headers p)
       (if chunked_truthy ?r0 \<or> contains_key (headers ?r0) CONTENT_LENGTH
        then ?r0\<lparr>body := BodyPayload p\<rparr>
        else (case payload_size p of
                None \<Rightarrow> ?r0\<lparr>body := BodyPayload p, chunked := Some True\<rparr>
              | Some n \<Rightarrow> ?r0\<lparr>body := BodyPayload p,
                    headers := setitem (headers ?r0) CONTENT_LENGTH (str_of_nat n)\<rparr>))"
    have r2: "update_body_from_data data ?r0 = Inr r2"
      unfolding r2_def Some by (rule update_body_from_data_Some [OF ph])
    have nk2: "\<not> chunked_truthy r2"
      using nk known Some by (auto simp: r2_def chunked_truthy_def split: option.splits)
    have cl2: "contains_key (headers r2) CONTENT_LENGTH"
      using known Some nk
      by (auto simp: r2_def chunked_truthy_def copy_payload_headers_get contains_key_def
          get_setitem split: option.splits)
    from nk2 cl2 have "\<exists>r'. update_transfer_encoding r2 = Inr r'"
      by (simp add: update_transfer_encoding_cases)
    then show ?thesis using r1 r2 Some by (auto simp: request_init_def)
  qed
qed

lemma update_content_encoding_succeeds:
  "\<not> (data \<noteq> None \<and> compress_truthy (compress r) \<and>
      get_default (headers r) CONTENT_ENCODING [] \<noteq> []) \<Longrightarrow>
   \<exists>r1. update_content_encoding data r = Inr r1"
  by (auto simp: update_content_encoding_def Let_def split: option.splits)

lemma request_init_unset_succeeds:
  assumes wf: "data_well_formed data"
    and nc: "\<not> (data \<noteq> None \<and> compress_truthy (compress r) \<and>
      get_default (headers r) CONTENT_ENCODING [] \<noteq> [])"
    and te: "\<not> te_chunked (headers r)" and dte: "\<not> data_te_chunked data"
    and cl: "\<not> contains_key (headers r) CONTENT_LENGTH" and dcl: "\<not> data_content_length data"
  shows "\<exists>r'. request_init data r = Inr r'"
proof -
  let ?r0 = "r\<lparr>body := BodyBytes []\<rparr>"
  from update_content_encoding_succeeds [of data ?r0] nc obtain r1
    where r1: "update_content_encoding data ?r0 = Inr r1" by auto
  note f1 = update_content_encoding_Inr [OF r1]
  have cl1: "\<not> contains_key (headers r1) CONTENT_LENGTH"
    using f1(6) cl by (simp add: contains_key_def)
  have te1: "\<not> te_chunked (headers r1)"
    using te_chunked_cong [of "headers r1" "headers ?r0"] f1(5) te by simp
  from update_body_from_data_succeeds [OF wf] obtain r2
    where r2: "update_body_from_data data r1 = Inr r2" by blast
  have te2: "\<not> te_chunked (headers r2)"
    using update_body_from_data_te_chunked [OF r2] te1 dte by blast
  have "\<exists>r'. update_transfer_encoding r2 = Inr r'"
  proof (cases data)
    case None
    with r2 have "r2 = r1" by simp
    moreover have "body r1 = BodyBytes []" using f1(2) by simp
    ultimately show ?thesis using te1 cl1
      by (simp add: update_transfer_encoding_cases)
  next
    case (Some p)
    then have ph: "payload_headers p \<noteq> []" using wf by (simp add: data_well_formed_def)
    have pcl: "\<not> contains_key (payload_headers p) CONTENT_LENGTH"
      using dcl Some by (simp add: data_content_length_def)
    define X where "X = (if chunked_truthy r1 \<or> contains_key (headers r1) CONTENT_LENGTH
        then r1\<lparr>body := BodyPayload p\<rparr>
        else (case payload_size p of
                None \<Rightarrow> r1\<lparr>body := BodyPayload p, chunked := Some True\<rparr>
              | Some n \<Rightarrow> r1\<lparr>body := BodyPayload p,
                    headers := setitem (headers r1) CONTENT_LENGTH (str_of_nat n)\<rparr>))"
    have r2_eq: "r2 = copy_payload_headers (payload_headers p) X"
      using r2 update_body_from_data_Some [OF ph, of r1] Some by (simp add: X_def)
    have ch2: "chunked_truthy r2 = chunked_truthy X"
      by (simp add: r2_eq chunked_truthy_def)
    have X_iff: "contains_key (headers X) CONTENT_LENGTH \<longleftrightarrow> \<not> chunked_truthy X"
      using cl1 by (auto simp: X_def chunked_truthy_def contains_key_setitem split: option.splits)
    have cl2: "contains_key (headers r2) CONTENT_LENGTH \<longleftrightarrow> \<not> chunked_truthy r2"
    proof
      assume "contains_key (headers r2) CONTENT_LENGTH"
      then have "contains_key (headers X) CONTENT_LENGTH"
        using copy_payload_headers_contains [of "payload_headers p" X CONTENT_LENGTH] pcl
        by (simp add: r2_eq)
      then show "\<not> chunked_truthy r2" using X_iff ch2 by simp
    next
      assume "\<not> chunked_truthy r2"
      then have "contains_key (headers X) CONTENT_LENGTH" using X_iff ch2 by simp
      then show "contains_key (headers r2) CONTENT_LENGTH"
        using copy_payload_headers_keeps [of X CONTENT_LENGTH "payload_headers p"]
        by (simp add: r2_eq contains_key_def)
    qed
    show ?thesis using te2 cl2 by (simp add: update_transfer_encoding_cases)
  qed
  then show ?thesis using r1 r2 by (auto simp: request_init_def)
qed

text \<open>
  C3, as the code has it. The checks are guarded: the compress check runs only when data
  is given, the chunked checks only when data is given or the method is not one of
  GET, HEAD, OPTIONS, TRACE. Under its guard each of the three conflicts raises the
  configuration error. Construction succeeds when no flag is set and the body's size is
  known (or there is no data), and when neither the caller nor the payload supplies a
  Content-Length or a Transfer-Encoding: chunked header and compress does not meet a
  Content-Encoding header. Whenever construction succeeds and neither the caller's
  headers nor the payload's own headers carry Transfer-Encoding: chunked, the resulting
  header set does not contain both Content-Length and Transfer-Encoding: chunked.
\<close>

theorem header_conflicts_guarded:
  "(data \<noteq> None \<and> compress_truthy (compress r) \<and>
      get_default (headers r) CONTENT_ENCODING [] \<noteq> []
      \<longrightarrow> config_error (request_init data r)) \<and>
   (data_well_formed data \<and> transfer_checks_apply data r \<and> chunked_truthy r \<and>
      (te_chunked (headers r) \<or> contains_key (headers r) CONTENT_LENGTH)
      \<longrightarrow> config_error (request_init data r)) \<and>
   (data_well_formed data \<and> \<not> compress_truthy (compress r) \<and> \<not> chunked_truthy r \<and>
      (case data of None \<Rightarrow> True
       | Some p \<Rightarrow> payload_size p \<noteq> None \<or> contains_key (headers r) CONTENT_LENGTH)
      \<longrightarrow> (\<exists>r'. request_init data r = Inr r')) \<and>
   (data_well_formed data \<and>
      \<not> (data \<noteq> None \<and> compress_truthy (compress r) \<and>
         get_default (headers r) CONTENT_ENCODING [] \<noteq> []) \<and>
      \<not> te_chunked (headers r) \<and> \<not> data_te_chunked data \<and>
      \<not> contains_key (headers r) CONTENT_LENGTH \<and> \<not> data_content_length data
      \<longrightarrow> (\<exists>r'. request_init data r = Inr r')) \<and>
   (\<forall>r'. request_init data r = Inr r' \<and> \<not> te_chunked (headers r) \<and> \<not> data_te_chunked data
      \<longrightarrow> exclusive (headers r'))"
  using request_init_compress_conflict [of data r]
    request_init_chunked_conflict [of data r]
    request_init_plain_succeeds [of data r]
    request_init_unset_succeeds [of data r]
    request_init_exclusive [of data r]
  by blast

theorem header_conflicts_guarded_witness:
  "config_error (request_init (Some example_bytes_payload) example_compress_get) \<and>
   config_error (request_init (Some example_bytes_payload) (example_te_post\<lparr>chunked := Some True\<rparr>)) \<and>
   config_error (request_init None
      (example_post\<lparr>chunked := Some True,
         headers := [(''Host'', ''example.com''), (''content-length'', ''3'')]\<rparr>)) \<and>
   (\<exists>r'. request_init (Some example_bytes_payload) example_post = Inr r' \<and> exclusive (headers r'))"
proof -
  let ?d = "Some example_bytes_payload"
  let ?cl = "example_post\<lparr>chunked := Some True,
         headers := [(''Host'', ''example.com''), (''content-length'', ''3'')]\<rparr>"
  have wf: "data_well_formed ?d" "data_well_formed None" "?d \<noteq> None"
    by (simp_all add: data_well_formed_def example_bytes_payload_def)
  have h1: "compress_truthy (compress example_compress_get)"
    "get_default (headers example_compress_get) CONTENT_ENCODING [] \<noteq> []"
    by code_simp+
  have h2: "transfer_checks_apply ?d (example_te_post\<lparr>chunked := Some True\<rparr>)"
    "chunked_truthy (example_te_post\<lparr>chunked := Some True\<rparr>)"
    "te_chunked (headers (example_te_post\<lparr>chunked := Some True\<rparr>))"
    by code_simp+
  have h3: "transfer_checks_apply None ?cl" "chunked_truthy ?cl"
    "contains_key (headers ?cl) CONTENT_LENGTH"
    by code_simp+
  have h4: "\<not> compress_truthy (compress example_post)" "\<not> chunked_truthy example_post"
    "payload_size example_bytes_payload \<noteq> None"
    "\<not> te_chunked (headers example_post)" "\<not> data_te_chunked ?d"
    by code_simp+
  from wf h1 h2 h3 h4
    header_conflicts_guarded [of ?d example_compress_get]
    header_conflicts_guarded [of ?d "example_te_post\<lparr>chunked := Some True\<rparr>"]
    header_conflicts_guarded [of None ?cl]
    header_conflicts_guarded [of ?d example_post]
  show ?thesis by auto
qed

text \<open>
  C3 as stated fails on the code. A GET without data that sets both a compress flag and a
  Content-Encoding header is constructed without error; a POST of five bytes whose caller
  wrote Transfer-Encoding: chunked and set no flag is constructed with both Content-Length
  and Transfer-Encoding: chunked; the same POST with a body of unknown size is refused
  although none of the three listed conflicts is present.
\<close>

theorem header_conflicts_counterexample:
  "spec_conflict example_compress_get \<and>
   request_init None example_compress_get = Inr example_compress_get \<and>
   \<not> spec_conflict example_te_post \<and>
   (case request_init (Some example_bytes_payload) example_te_post of
      Inl e \<Rightarrow> False
    | Inr r' \<Rightarrow> contains_key (headers r') CONTENT_LENGTH \<and> te_chunked (headers r')) \<and>
   config_error (request_init (Some example_stream_payload) example_te_post)"
  by code_simp

lemma request_init_no_data:
  assumes app: "http_method r \<notin> GET_METHODS"
    and nk: "\<not> chunked_truthy r" and te: "\<not> te_chunked (headers r)"
    and cl: "\<not> contains_key (headers r) CONTENT_LENGTH"
  shows "request_init None r =
     Inr (r\<lparr>body := BodyBytes [],
            headers := setitem (headers r) CONTENT_LENGTH (str_of_nat 0)\<rparr>)"
  using assms
  by (simp add: request_init_def update_content_encoding_def
      update_transfer_encoding_cases chunked_truthy_def)

lemma request_init_known_size:
  assumes nk: "\<not> chunked_truthy r" and nc: "\<not> compress_truthy (compress r)"
    and cl: "\<not> contains_key (headers r) CONTENT_LENGTH"
    and ph: "payload_headers p \<noteq> []" and sz: "payload_size p = Some n"
  shows "\<exists>r'. request_init (Some p) r = Inr r' \<and>
     get (headers r') CONTENT_LENGTH = Some (str_of_nat n) \<and> chunked r' = chunked r"
proof -
  let ?r0 = "r\<lparr>body := BodyBytes []\<rparr>"
  let ?X = "?r0\<lparr>body := BodyPayload p,
      headers := setitem (headers ?r0) CONTENT_LENGTH (str_of_nat n)\<rparr>"
  let ?r2 = "copy_payload_headers (payload_headers p) ?X"
  have r1: "update_content_encoding (Some p) ?r0 = Inr ?r0"
    using nc by (simp add: update_content_encoding_no_compress)
  have r2: "update_body_from_data (Some p) ?r0 = Inr ?r2"
    using nk cl sz by (simp add: update_body_from_data_Some [OF ph] chunked_truthy_def)
  have g: "get (headers ?r2) CONTENT_LENGTH = Some (str_of_nat n)"
    by (simp add: copy_payload_headers_get get_setitem)
  have k: "\<not> chunked_truthy ?r2" using nk by (simp add: chunked_truthy_def)
  have "update_transfer_encoding ?r2 = Inr ?r2"
    using g k by (simp add: update_transfer_encoding_cases contains_key_def)
  then have "request_init (Some p) r = Inr ?r2"
    using r1 r2 by (simp add: request_init_def)
  then show ?thesis using g by simp
qed

lemma request_init_unknown_size:
  assumes nk: "\<not> chunked_truthy r" and nc: "\<not> compress_truthy (compress r)"
    and te: "\<not> te_chunked (headers r)"
    and cl: "\<not> contains_key (headers r) CONTENT_LENGTH"
    and ph: "payload_headers p \<noteq> []" and sz: "payload_size p = None"
  shows "case request_init (Some p) r of
           Inr r' \<Rightarrow> chunked r' = Some True \<and>
             get (headers r') TRANSFER_ENCODING = Some ''chunked'' \<and>
             \<not> contains_key (headers r') CONTENT_LENGTH
         | Inl e \<Rightarrow> config_error (Inl e) \<and>
             (te_chunked (payload_headers p) \<or> contains_key (payload_headers p) CONTENT_LENGTH)"
proof -
  let ?r0 = "r\<lparr>body := BodyBytes []\<rparr>"
  let ?X = "?r0\<lparr>body := BodyPayload p, chunked := Some True\<rparr>"
  let ?r2 = "copy_payload_headers (payload_headers p) ?X"
  have r1: "update_content_encoding (Some p) ?r0 = Inr ?r0"
    using nc by (simp add: update_content_encoding_no_compress)
  have r2: "update_body_from_data (Some p) ?r0 = Inr ?r2"
    using nk cl sz by (simp add: update_body_from_data_Some [OF ph] chunked_truthy_def)
  have init: "request_init (Some p) r = update_transfer_encoding ?r2"
    using r1 r2 by (simp add: request_init_def)
  have k: "chunked_truthy ?r2" by (simp add: chunked_truthy_def)
  have t2: "te_chunked (headers ?r2) \<Longrightarrow> te_chunked (payload_headers p)"
    using copy_payload_headers_te_chunked [of "payload_headers p" ?X] te by auto
  have c2: "contains_key (headers ?r2) CONTENT_LENGTH \<Longrightarrow>
      contains_key (payload_headers p) CONTENT_LENGTH"
    using copy_payload_headers_contains [of "payload_headers p" ?X CONTENT_LENGTH] cl by auto
  show ?thesis
    unfolding init using k t2 c2
    by (auto simp: update_transfer_encoding_cases get_setitem contains_key_setitem
        header_names_differ chunked_truthy_def)
qed

text \<open>
  C4. When a body is present or the method is not a no-body method, no chunked flag is set
  or forced by compress, no Transfer-Encoding: chunked header was written and the caller
  set no Content-Length: if the body's length is known, construction succeeds with
  Content-Length set to that length and the chunked flag untouched; if it is unknown, the
  chunked flag is forced to true, and construction ends with Transfer-Encoding: chunked and
  no Content-Length (it is refused only when the payload's own headers bring a
  Transfer-Encoding: chunked or Content-Length header).
\<close>

theorem content_length_or_chunked:
  assumes "transfer_checks_apply data r" and "\<not> chunked_truthy r"
    and "\<not> compress_truthy (compress r)" and "\<not> te_chunked (headers r)"
    and "\<not> contains_key (headers r) CONTENT_LENGTH" and "data_well_formed data"
  shows "case known_length data of
           Some n \<Rightarrow>
             (\<exists>r'. request_init data r = Inr r' \<and>
                get (headers r') CONTENT_LENGTH = Some (str_of_nat n) \<and>
                chunked r' = chunked r)
         | None \<Rightarrow>
             (case request_init data r of
                Inr r' \<Rightarrow> chunked r' = Some True \<and>
                  get (headers r') TRANSFER_ENCODING = Some ''chunked'' \<and>
                  \<not> contains_key (headers r') CONTENT_LENGTH
              | Inl e \<Rightarrow> config_error (Inl e) \<and>
                  (data_te_chunked data \<or> data_content_length data))"
proof (cases data)
  case None
  then have "http_method r \<notin> GET_METHODS"
    using assms(1) by (simp add: transfer_checks_apply_def)
  from request_init_no_data [OF this assms(2,4,5)] None show ?thesis
    by (simp add: known_length_def get_setitem)
next
  case (Some p)
  then have ph: "payload_headers p \<noteq> []"
    using assms(6) by (simp add: data_well_formed_def)
  show ?thesis
  proof (cases "payload_size p")
    case None
    have d: "data_te_chunked data = te_chunked (payload_headers p)"
      "data_content_length data = contains_key (payload_headers p) CONTENT_LENGTH"
      using Some by (simp_all add: data_te_chunked_def data_content_length_def)
    from request_init_unknown_size [OF assms(2,3,4,5) ph None] Some None show ?thesis
      unfolding d by (simp add: known_length_def)
  next
    case (Some n)
    from request_init_known_size [OF assms(2,3,5) ph Some] \<open>data = Some p\<close> Some show ?thesis
      by (simp add: known_length_def)
  qed
qed

theorem content_length_or_chunked_witness:
  "(\<exists>r'. request_init None example_post = Inr r' \<and>
      get (headers r') CONTENT_LENGTH = Some ''0'') \<and>
   (\<exists>r'. request_init (Some example_bytes_payload) example_post = Inr r' \<and>
      get (headers r') CONTENT_LENGTH = Some ''5'') \<and>
   (\<exists>r'. request_init (Some example_stream_payload) example_post = Inr r' \<and>
      chunked r' = Some True \<and> get (headers r') TRANSFER_ENCODING = Some ''chunked'' \<and>
      \<not> contains_key (headers r') CONTENT_LENGTH)"
proof -
  let ?b = "Some example_bytes_payload" and ?s = "Some example_stream_payload"
  have r: "\<not> chunked_truthy example_post" "\<not> compress_truthy (compress example_post)"
    "\<not> te_chunked (headers example_post)"
    "\<not> contains_key (headers example_post) CONTENT_LENGTH"
    by code_simp+
  have d: "transfer_checks_apply None example_post" "transfer_checks_apply ?b example_post"
    "transfer_checks_apply ?s example_post"
    "data_well_formed None" "data_well_formed ?b" "data_well_formed ?s"
    by code_simp+
  have k: "known_length None = Some 0" "known_length ?b = Some 5" "known_length ?s = None"
    "str_of_nat 0 = ''0''" "str_of_nat 5 = ''5''"
    "\<not> data_te_chunked ?s" "\<not> data_content_length ?s"
    by code_simp+
  from content_length_or_chunked [OF d(1) r d(4)] k
  have 1: "\<exists>r'. request_init None example_post = Inr r' \<and>
      get (headers r') CONTENT_LENGTH = Some ''0''" by auto
  from content_length_or_chunked [OF d(2) r d(5)] k
  have 2: "\<exists>r'. request_init ?b example_post = Inr r' \<and>
      get (headers r') CONTENT_LENGTH = Some ''5''" by auto
  from content_length_or_chunked [OF d(3) r d(6)] k
  have 3: "\<exists>r'. request_init ?s example_post = Inr r' \<and>
      chunked r' = Some True \<and> get (headers r') TRANSFER_ENCODING = Some ''chunked'' \<and>
      \<not> contains_key (headers r') CONTENT_LENGTH"
    by (auto split: sum.splits)
  from 1 2 3 show ?thesis by blast
qed

section \<open>Fingerprint\<close>

lemma Fingerprint_init_cases:
  "Fingerprint_init fp =
     (if length fp = 32 then Inr \<lparr>hashfunc = SHA256, fingerprint = fp\<rparr>
      else if length fp = 16 \<or> length fp = 20
        then Inl (ValueError ''md5 and sha1 are insecure and not supported. Use sha256.'')
      else Inl (ValueError ''fingerprint has invalid length''))"
  by (simp add: Fingerprint_init_def HASHFUNC_BY_DIGESTLEN_def)

lemma HASHFUNC_BY_DIGESTLEN_None:
  "HASHFUNC_BY_DIGESTLEN n = None \<longleftrightarrow> n \<noteq> 16 \<and> n \<noteq> 20 \<and> n \<noteq> 32"
  by (simp add: HASHFUNC_BY_DIGESTLEN_def)

lemma check_tls:
  "check digest self (tls_transport cert host port) =
     (if digest (hashfunc self) cert \<noteq> fingerprint self
      then Inl (ServerFingerprintMismatch (fingerprint self) (digest (hashfunc self) cert) host port)
      else Inr ())"
  by (simp add: check_def tls_transport_def)

lemma check_mismatch_only:
  assumes "check digest self t = Inl (ServerFingerprintMismatch e g h p)"
  shows "sslcontext t \<and> e = fingerprint self \<and> g \<noteq> e \<and> peername t = Some (h, p) \<and>
     (\<exists>cert. ssl_object t = Some (Some cert) \<and> g = digest (hashfunc self) cert)"
  using assms
  by (auto simp: check_def Let_def split: if_splits option.splits)

text \<open>
  C5. Constructing a fingerprint raises for every digest whose length has no entry in the
  table, raises for 16-byte and 20-byte digests, and succeeds exactly for 32-byte digests,
  then with SHA-256 as its hash function. For a constructed fingerprint, \<^verbatim>\<open>check\<close>
  returns without effect on every transport that reports no SSL context; over a TLS
  transport it raises the mismatch error, carrying the pinned digest, the digest of the
  peer certificate, the peer host and port, exactly when the SHA-256 digest of the peer
  certificate differs from the pinned one; and it raises that error on no other transport.
\<close>

theorem fingerprint_pinning:
  "(HASHFUNC_BY_DIGESTLEN (length fp) = None \<longrightarrow>
      Fingerprint_init fp = Inl (ValueError ''fingerprint has invalid length'')) \<and>
   (length fp = 16 \<or> length fp = 20 \<longrightarrow>
      Fingerprint_init fp =
        Inl (ValueError ''md5 and sha1 are insecure and not supported. Use sha256.'')) \<and>
   ((\<exists>self. Fingerprint_init fp = Inr self) \<longleftrightarrow> length fp = 32) \<and>
   (Fingerprint_init fp = Inr self \<longrightarrow>
      hashfunc self = SHA256 \<and> fingerprint self = fp \<and>
      (\<not> sslcontext t \<longrightarrow> check digest self t = Inr ()) \<and>
      check digest self (tls_transport cert host port) =
        (if digest SHA256 cert \<noteq> fp
         then Inl (ServerFingerprintMismatch fp (digest SHA256 cert) host port)
         else Inr ()) \<and>
      (\<forall>e g h p. check digest self t = Inl (ServerFingerprintMismatch e g h p) \<longrightarrow>
         sslcontext t \<and> e = fp \<and> g \<noteq> fp \<and> peername t = Some (h, p) \<and>
         (\<exists>c. ssl_object t = Some (Some c) \<and> g = digest SHA256 c)))"
proof -
  have 1: "HASHFUNC_BY_DIGESTLEN (length fp) = None \<longrightarrow>
      Fingerprint_init fp = Inl (ValueError ''fingerprint has invalid length'')"
    by (simp add: Fingerprint_init_cases HASHFUNC_BY_DIGESTLEN_None)
  have 2: "length fp = 16 \<or> length fp = 20 \<longrightarrow>
      Fingerprint_init fp =
        Inl (ValueError ''md5 and sha1 are insecure and not supported. Use sha256.'')"
    by (auto simp: Fingerprint_init_cases)
  have 3: "(\<exists>self. Fingerprint_init fp = Inr self) \<longleftrightarrow> length fp = 32"
    by (simp add: Fingerprint_init_cases)
  have 4: "hashfunc self = SHA256 \<and> fingerprint self = fp \<and>
      (\<not> sslcontext t \<longrightarrow> check digest self t = Inr ()) \<and>
      check digest self (tls_transport cert host port) =
        (if digest SHA256 cert \<noteq> fp
         then Inl (ServerFingerprintMismatch fp (digest SHA256 cert) host port)
         else Inr ()) \<and>
      (\<forall>e g h p. check digest self t = Inl (ServerFingerprintMismatch e g h p) \<longrightarrow>
         sslcontext t \<and> e = fp \<and> g \<noteq> fp \<and> peername t = Some (h, p) \<and>
         (\<exists>c. ssl_object t = Some (Some c) \<and> g = digest SHA256 c))"
    if ok: "Fingerprint_init fp = Inr self"
  proof -
    from ok have s: "hashfunc self = SHA256" "fingerprint self = fp"
      by (auto simp: Fingerprint_init_cases split: if_splits)
    have a: "\<not> sslcontext t \<longrightarrow> check digest self t = Inr ()"
      by (simp add: check_def)
    have b: "check digest self (tls_transport cert host port) =
        (if digest SHA256 cert \<noteq> fp
         then Inl (ServerFingerprintMismatch fp (digest SHA256 cert) host port)
         else Inr ())"
      using check_tls [of digest self cert host port] s by simp
    have c: "\<forall>e g h p. check digest self t = Inl (ServerFingerprintMismatch e g h p) \<longrightarrow>
         sslcontext t \<and> e = fp \<and> g \<noteq> fp \<and> peername t = Some (h, p) \<and>
         (\<exists>c. ssl_object t = Some (Some c) \<and> g = digest SHA256 c)"
    proof (intro allI impI)
      fix e g h p
      assume m: "check digest self t = Inl (ServerFingerprintMismatch e g h p)"
      from check_mismatch_only [OF m] s
      show "sslcontext t \<and> e = fp \<and> g \<noteq> fp \<and> peername t = Some (h, p) \<and>
         (\<exists>c. ssl_object t = Some (Some c) \<and> g = digest SHA256 c)"
        by auto
    qed
    from s a b c show ?thesis by (iprover intro: conjI)
  qed
  from 1 2 3 show ?thesis using 4 by (iprover intro: conjI impI)
qed

theorem fingerprint_pinning_witness:
  "Fingerprint_init example_short_digest = Inl (ValueError ''fingerprint has invalid length'') \<and>
   Fingerprint_init example_md5_digest =
     Inl (ValueError ''md5 and sha1 are insecure and not supported. Use sha256.'') \<and>
   (\<exists>self. Fingerprint_init example_digest = Inr self \<and>
      check example_hash self example_plain_transport = Inr () \<and>
      check example_hash self (tls_transport example_digest ''example.com'' 443) = Inr () \<and>
      check example_hash self (tls_transport example_other_cert ''example.com'' 443) =
        Inl (ServerFingerprintMismatch example_digest example_other_cert ''example.com'' 443))"
proof -
  have l1: "HASHFUNC_BY_DIGESTLEN (length example_short_digest) = None"
    by (simp add: HASHFUNC_BY_DIGESTLEN_def example_short_digest_def)
  have l2: "length example_md5_digest = 16 \<or> length example_md5_digest = 20"
    by (simp add: example_md5_digest_def)
  have l3: "length example_digest = 32"
    by (simp add: example_digest_def)
  have l4: "\<not> sslcontext example_plain_transport"
    by (simp add: example_plain_transport_def)
  have h1: "example_hash SHA256 example_digest = example_digest"
    by (simp add: example_hash_def example_digest_def)
  have h2: "example_hash SHA256 example_other_cert = example_other_cert"
    by (simp add: example_hash_def example_other_cert_def)
  have h3: "example_other_cert \<noteq> example_digest"
    by (simp add: example_other_cert_def example_digest_def)
  have a: "Fingerprint_init example_short_digest = Inl (ValueError ''fingerprint has invalid length'')"
    using fingerprint_pinning [of example_short_digest, THEN conjunct1] l1 by (rule mp)
  have b: "Fingerprint_init example_md5_digest =
     Inl (ValueError ''md5 and sha1 are insecure and not supported. Use sha256.'')"
    using fingerprint_pinning [of example_md5_digest, THEN conjunct2, THEN conjunct1] l2
    by (rule mp)
  from fingerprint_pinning [of example_digest, THEN conjunct2, THEN conjunct2, THEN conjunct1] l3
  obtain self where s: "Fingerprint_init example_digest = Inr self" by blast
  note rest = fingerprint_pinning [THEN conjunct2, THEN conjunct2, THEN conjunct2, THEN mp, OF s]
  note noop = rest [THEN conjunct2, THEN conjunct2, THEN conjunct1]
  note tls = rest [THEN conjunct2, THEN conjunct2, THEN conjunct2, THEN conjunct1]
  have c: "check example_hash self example_plain_transport = Inr ()"
    using noop [of example_plain_transport example_hash] l4 by (rule mp)
  have d: "check example_hash self (tls_transport example_digest ''example.com'' 443) = Inr ()"
    using tls [of example_hash example_digest "''example.com''" 443] h1
    by (simp only: if_False simp_thms)
  have e: "check example_hash self (tls_transport example_other_cert ''example.com'' 443) =
        Inl (ServerFingerprintMismatch example_digest example_other_cert ''example.com'' 443)"
    using tls [of example_hash example_other_cert "''example.com''" 443] h2 h3
    by (simp only: if_True simp_thms)
  from a b s c d e show ?thesis by (iprover intro: exI conjI)
qed

section \<open>ConnectionKey\<close>






section \<open>The writer task and the release of the connection\<close>

lemma reset_first_append [simp]: "reset_first xs \<Longrightarrow> reset_first (xs @ ys)"
  by (cases xs rule: reset_first.cases) simp_all

lemma reset_first_Cons: "reset_first xs \<longleftrightarrow> (\<exists>rest. xs = Reset_writer # rest)"
  by (cases xs rule: reset_first.cases) simp_all

lemma writer_invariant_init:
  assumes "callbacks t = []" "\<not> w \<longrightarrow> task_done t"
  shows "writer_invariant (response_init w sess cont info t)"
  using assms
  by (auto simp: writer_invariant_def response_init_def writer_setter_def Let_def
      remove_done_callback_def add_done_callback_def reset_writer_def)

lemma writer_invariant_release_connection:
  "writer_invariant s \<Longrightarrow> writer_invariant (release_connection s)"
  by (auto simp: writer_invariant_def release_connection_def add_done_callback_def
      split: option.splits)

lemma writer_invariant_cleanup_writer:
  "writer_invariant s \<Longrightarrow> writer_invariant (cleanup_writer s)"
  by (auto simp: writer_invariant_def cleanup_writer_def cancel_def Let_def)

lemma writer_invariant_notify_content:
  "writer_invariant s \<Longrightarrow> writer_invariant (notify_content s)"
  by (auto simp: writer_invariant_def notify_content_def Let_def split: option.splits)

lemma writer_invariant_del_finalizer:
  "writer_invariant s \<Longrightarrow> writer_invariant (del_finalizer s)"
proof -
  assume inv: "writer_invariant s"
  have "writer_invariant (cleanup_writer (s\<lparr>pool := pool s @ [ConnRelease]\<rparr>))"
    by (rule writer_invariant_cleanup_writer) (use inv in \<open>simp add: writer_invariant_def\<close>)
  with inv show ?thesis by (simp add: del_finalizer_def split: option.splits)
qed

lemma writer_invariant_closed:
  "writer_invariant s \<Longrightarrow> writer_invariant (s\<lparr>closed := b\<rparr>)"
  by (simp add: writer_invariant_def)

lemma writer_invariant_release:
  "writer_invariant s \<Longrightarrow> writer_invariant (release s)"
  unfolding release_def Let_def
  by (intro writer_invariant_release_connection writer_invariant_cleanup_writer
      writer_invariant_closed) (simp add: writer_invariant_notify_content)

lemma writer_invariant_response_eof:
  "writer_invariant s \<Longrightarrow> writer_invariant (response_eof s)"
  unfolding response_eof_def
  by (simp add: writer_invariant_release_connection writer_invariant_cleanup_writer
      writer_invariant_closed)

lemma writer_invariant_close:
  assumes "writer_invariant s"
  shows "writer_invariant (close s)"
proof -
  define s2 where "s2 = (if \<not> released s then notify_content s else s)\<lparr>closed := True\<rparr>"
  have 1: "writer_invariant s2"
    using assms by (simp add: s2_def writer_invariant_notify_content writer_invariant_closed)
  have 2: "writer_invariant (cleanup_writer s2)"
    using 1 by (rule writer_invariant_cleanup_writer)
  have 3: "writer_invariant (cleanup_writer s2
      \<lparr>pool := pool (cleanup_writer s2) @ [ConnClose], connection := None\<rparr>)"
    using 2 by (simp add: writer_invariant_def)
  have c: "close s =
     (if loop_closed s2 then s2
      else case connection (cleanup_writer s2) of
             None \<Rightarrow> cleanup_writer s2
           | Some c \<Rightarrow> cleanup_writer s2
               \<lparr>pool := pool (cleanup_writer s2) @ [ConnClose], connection := None\<rparr>)"
    by (cases "released s") (simp_all add: close_def s2_def Let_def split: option.splits)
  show ?thesis
    unfolding c using 1 2 3 by (simp split: option.splits)
qed

lemma writer_invariant_start_loop:
  "start_loop msgs s = Some (res, s') \<Longrightarrow> writer_invariant s \<Longrightarrow> writer_invariant s'"
proof (induction msgs s rule: start_loop.induct)
  case (3 m payload rest s)
  have "writer_invariant (s\<lparr>continue100 := False\<rparr>)"
    using "3.prems"(2) by (simp add: writer_invariant_def)
  with 3 show ?case by (auto split: if_splits)
qed simp_all

lemma writer_invariant_start:
  assumes "start conn msgs s = Some (res, s')" "writer_invariant s"
  shows "writer_invariant s'"
proof -
  let ?s0 = "s\<lparr>closed := False, connection := Some conn\<rparr>"
  have 0: "writer_invariant ?s0" using assms(2) by (simp add: writer_invariant_def)
  have fields: "writer_invariant (x\<lparr>status := a, reason := b, resp_headers := c, content := d\<rparr>)"
    if "writer_invariant x" for x :: "'a state" and a b c d
    using that by (simp add: writer_invariant_def)
  show ?thesis
  proof (cases "start_loop msgs ?s0")
    case None
    with assms(1) show ?thesis by (simp add: start_def)
  next
    case (Some r)
    obtain out s1 where r: "r = (out, s1)" by (cases r)
    have 1: "writer_invariant s1"
      using writer_invariant_start_loop [of msgs ?s0 out s1] Some r 0 by simp
    show ?thesis
    proof (cases out)
      case (Inl e)
      with assms(1) Some r 1 show ?thesis by (simp add: start_def)
    next
      case (Inr mp)
      obtain m payload where mp: "mp = (m, payload)" by (cases mp)
      have 2: "writer_invariant (if at_eof payload then response_eof s1 else s1)"
        using 1 by (simp add: writer_invariant_response_eof)
      from assms(1) Some r Inr mp have "s' = (if at_eof payload then response_eof s1 else s1)
          \<lparr>status := Some (msg_code m), reason := Some (msg_reason m),
           resp_headers := Some (msg_headers m), content := Some payload\<rparr>"
        by (simp add: start_def Let_def)
      then show ?thesis using fields [OF 2] by simp
    qed
  qed
qed

lemma writer_invariant_content:
  "writer_invariant s \<Longrightarrow> writer_invariant (s\<lparr>content := c\<rparr>)"
  by (simp add: writer_invariant_def)

lemma writer_invariant_content_read:
  "writer_invariant s \<Longrightarrow> writer_invariant (snd (content_read s))"
  by (auto simp: content_read_def Let_def writer_invariant_content writer_invariant_response_eof
      split: option.splits sum.splits)

lemma writer_invariant_raise_for_status:
  "writer_invariant s \<Longrightarrow> writer_invariant (snd (raise_for_status s))"
  by (auto simp: raise_for_status_def Let_def writer_invariant_release
      split: option.splits sum.splits bool.splits)

lemma writer_invariant_add_done_callback:
  "writer_invariant s \<Longrightarrow> writer s \<Longrightarrow> writer_invariant (add_done_callback cb s)"
  by (auto simp: writer_invariant_def add_done_callback_def)

lemma writer_invariant_wait_released_begin:
  "writer_invariant s \<Longrightarrow> writer_invariant (wait_released_begin s)"
  by (simp add: wait_released_begin_def writer_invariant_add_done_callback
      writer_invariant_release_connection)

lemma writer_invariant_wait_for_close_begin:
  "writer_invariant s \<Longrightarrow> writer_invariant (wait_for_close_begin s)"
  by (simp add: wait_for_close_begin_def writer_invariant_add_done_callback
      writer_invariant_release)

lemma writer_invariant_task_finish:
  "writer_invariant s \<Longrightarrow> \<not> task_done (task s) \<Longrightarrow> writer_invariant (task_finish s)"
  by (auto simp: writer_invariant_def task_finish_def)

lemma writer_invariant_pop:
  assumes "writer_invariant s" "ready s = cb # rest"
  shows "cb \<noteq> Reset_writer \<Longrightarrow> writer_invariant (s\<lparr>ready := rest\<rparr>)"
    and "cb \<noteq> Reset_writer \<Longrightarrow> \<not> writer s"
    and "writer_invariant (reset_writer (s\<lparr>ready := rest\<rparr>))"
  using assms
  by (auto simp: writer_invariant_def reset_writer_def reset_first_Cons)

lemma writer_invariant_run_callback:
  assumes "writer_invariant s" "ready s = cb # rest"
  shows "writer_invariant (run_callback cb (s\<lparr>ready := rest\<rparr>))"
proof (cases "cb = Reset_writer")
  case True
  then show ?thesis using writer_invariant_pop(3) [OF assms] by simp
next
  case False
  note p = writer_invariant_pop(1) [OF assms False]
  from False show ?thesis
    by (cases cb)
      (simp_all add: writer_invariant_release_connection [OF p] writer_invariant_release [OF p])
qed

lemma writer_invariant_step:
  "step s s' \<Longrightarrow> writer_invariant s \<Longrightarrow> writer_invariant s'"
proof (induction rule: step.induct)
  case (step_start conn msgs s res s')
  then show ?case by (rule writer_invariant_start)
next
  case (step_callback s cb rest)
  then show ?case by (simp add: writer_invariant_run_callback)
next
  case (step_wakeup_raises s cb rest)
  then have "cb \<noteq> Reset_writer" by auto
  with step_wakeup_raises show ?case by (simp add: writer_invariant_pop(1))
next
  case (step_loop_close s)
  then show ?case by (simp add: writer_invariant_def)
qed (simp_all add: writer_invariant_release writer_invariant_close writer_invariant_response_eof
    writer_invariant_del_finalizer
    writer_invariant_content_read writer_invariant_raise_for_status
    writer_invariant_wait_released_begin writer_invariant_wait_for_close_begin
    writer_invariant_task_finish)

lemma reachable_writer_invariant: "reachable s \<Longrightarrow> writer_invariant s"
  by (induction rule: reachable.induct)
    (simp_all add: writer_invariant_init writer_invariant_step)

lemma example_started_reachable: "reachable example_started"
proof -
  have r0: "reachable example_response"
    unfolding example_response_def
    by (rule reachable_init) (simp_all add: example_pending_task_def)
  have "\<exists>res. start example_connection [Parsed example_message example_stream] example_response =
      Some (res, example_started)"
    by (simp add: example_started_def start_def example_message_def example_stream_def
        split: option.splits sum.splits prod.splits)
  then obtain res where
    "start example_connection [Parsed example_message example_stream] example_response =
      Some (res, example_started)" ..
  then have "step example_response example_started" by (rule step_start)
  with r0 show ?thesis by (rule reachable_step)
qed

subsection \<open>Which steps hand the connection back\<close>

lemma cleanup_writer_fields [simp]:
  "writer (cleanup_writer s) = writer s" "pool (cleanup_writer s) = pool s"
  "connection (cleanup_writer s) = connection s" "ready (cleanup_writer s) = ready s"
  "task_done (task (cleanup_writer s)) = task_done (task s)"
  "callbacks (task (cleanup_writer s)) = callbacks (task s)"
  "closed (cleanup_writer s) = closed s" "released (cleanup_writer s) = released s"
  "content (cleanup_writer s) = content s" "resp_body (cleanup_writer s) = resp_body s"
  by (simp_all add: cleanup_writer_def cancel_def Let_def)

lemma notify_content_fields [simp]:
  "writer (notify_content s) = writer s" "pool (notify_content s) = pool s"
  "connection (notify_content s) = connection s" "ready (notify_content s) = ready s"
  "task (notify_content s) = task s" "closed (notify_content s) = closed s"
  "released (notify_content s)" "resp_body (notify_content s) = resp_body s"
  by (simp_all add: notify_content_def Let_def split: option.splits)

lemma release_connection_fields [simp]:
  "writer (release_connection s) = writer s"
  "closed (release_connection s) = closed s" "released (release_connection s) = released s"
  "content (release_connection s) = content s" "resp_body (release_connection s) = resp_body s"
  "task_done (task (release_connection s)) = task_done (task s)"
  by (simp_all add: release_connection_def add_done_callback_def split: option.splits)

lemma pool_release_connection:
  "pool (release_connection s) =
     (if connection s \<noteq> None \<and> \<not> writer s then pool s @ [ConnRelease] else pool s)"
  by (simp add: release_connection_def add_done_callback_def split: option.splits)

lemma pool_release:
  "pool (release s) =
     (if connection s \<noteq> None \<and> \<not> writer s then pool s @ [ConnRelease] else pool s)"
  by (simp add: release_def Let_def pool_release_connection)

lemma pool_response_eof:
  "pool (response_eof s) =
     (if \<not> closed s \<and> \<not> protocol_upgraded s \<and> connection s \<noteq> None \<and> \<not> writer s
      then pool s @ [ConnRelease] else pool s)"
  by (simp add: response_eof_def pool_release_connection)

lemma releases_close [simp]: "releases (close s) = releases s"
  by (simp add: close_def Let_def releases_def split: option.splits)

lemma writer_release [simp]: "writer (release s) = writer s"
  by (simp add: release_def Let_def)

lemma writer_response_eof [simp]: "writer (response_eof s) = writer s"
  by (simp add: response_eof_def)

lemma releases_grow_release_connection:
  "releases s < releases (release_connection s) \<Longrightarrow> \<not> writer s"
  by (simp add: releases_def pool_release_connection split: if_splits)

lemma releases_grow_release: "releases s < releases (release s) \<Longrightarrow> \<not> writer s"
  by (simp add: releases_def pool_release split: if_splits)

lemma releases_grow_response_eof: "releases s < releases (response_eof s) \<Longrightarrow> \<not> writer s"
  by (simp add: releases_def pool_response_eof split: if_splits)

lemma start_loop_fields:
  "start_loop msgs s = Some (res, s') \<Longrightarrow> writer s' = writer s \<and> pool s' = pool s"
  by (induction msgs s rule: start_loop.induct) (auto split: if_splits)

lemma releases_grow_start:
  assumes "start conn msgs s = Some (res, s')" "releases s < releases s'"
  shows "\<not> writer s"
proof -
  let ?s0 = "s\<lparr>closed := False, connection := Some conn\<rparr>"
  from assms(1) obtain out s1 where l: "start_loop msgs ?s0 = Some (out, s1)"
    by (cases "start_loop msgs ?s0") (auto simp: start_def)
  from start_loop_fields [OF l] have f: "writer s1 = writer s" "pool s1 = pool s" by simp_all
  have r: "releases s1 = releases s" using f by (simp add: releases_def)
  show ?thesis
  proof (cases out)
    case (Inl e)
    with assms l r show ?thesis by (simp add: start_def)
  next
    case (Inr mp)
    obtain m payload where mp: "mp = (m, payload)" by (cases mp)
    from assms(1) l Inr mp
    have "pool s' = pool (if at_eof payload then response_eof s1 else s1)"
      by (auto simp: start_def Let_def)
    then have "releases s' = releases (if at_eof payload then response_eof s1 else s1)"
      by (simp add: releases_def)
    with assms(2) r have "releases s1 < releases (response_eof s1)"
      by (simp split: if_splits)
    then show ?thesis using releases_grow_response_eof f by blast
  qed
qed

lemma releases_grow_content_read:
  "releases s < releases (snd (content_read s)) \<Longrightarrow> \<not> writer s"
proof -
  have c: "releases (x\<lparr>content := c\<rparr>) = releases x" for x :: "'a state" and c
    by (simp add: releases_def)
  assume a: "releases s < releases (snd (content_read s))"
  show ?thesis
  proof (rule ccontr)
    assume "\<not> \<not> writer s"
    then have w: "writer s" by simp
    have "releases (response_eof (s\<lparr>content := c\<rparr>)) = releases s" for c
      using w by (simp add: releases_def pool_response_eof)
    then have "releases (snd (content_read s)) = releases s"
      by (simp add: content_read_def Let_def c split: option.splits sum.splits)
    with a show False by simp
  qed
qed

lemma releases_grow_raise_for_status:
  "releases s < releases (snd (raise_for_status s)) \<Longrightarrow> \<not> writer s"
  by (auto simp: raise_for_status_def Let_def dest: releases_grow_release
      split: option.splits sum.splits bool.splits)

text \<open>Every step but the finalizer hands the connection back only with the handle cleared.\<close>

lemma releases_grow_step:
  "step s s' \<Longrightarrow> releases s < releases s' \<Longrightarrow> \<not> writer s \<or> s' = del_finalizer s"
proof (induction rule: step.induct)
  case (step_start conn msgs s res s')
  then show ?case using releases_grow_start by blast
next
  case (step_release s)
  then show ?case using releases_grow_release by blast
next
  case (step_close s)
  then show ?case by simp
next
  case (step_eof s)
  then show ?case using releases_grow_response_eof by blast
next
  case (step_content_read s)
  then show ?case using releases_grow_content_read by blast
next
  case (step_raise_for_status s)
  then show ?case using releases_grow_raise_for_status by blast
next
  case (step_wait_released s)
  then show ?case
    by (auto simp: wait_released_begin_def add_done_callback_def releases_def
        dest: releases_grow_release_connection split: if_splits)
next
  case (step_wait_for_close s)
  then show ?case
    by (auto simp: wait_for_close_begin_def add_done_callback_def releases_def
        dest: releases_grow_release split: if_splits)
next
  case (step_task_finish s)
  then show ?case by (simp add: task_finish_def releases_def)
next
  case (step_callback s cb rest)
  have r: "releases (s\<lparr>ready := rest\<rparr>) = releases s" by (simp add: releases_def)
  from step_callback show ?case
    using releases_grow_release_connection [of "s\<lparr>ready := rest\<rparr>"]
      releases_grow_release [of "s\<lparr>ready := rest\<rparr>"]
    by (cases cb) (simp_all add: r reset_writer_def releases_def)
next
  case (step_wakeup_raises s cb rest)
  then show ?case by (simp add: releases_def)
next
  case (step_loop_close s)
  then show ?case by (simp add: releases_def)
next
  case (step_del s)
  then show ?case by simp
qed

subsection \<open>A release while the writer is in flight is deferred\<close>

lemma connection_release_connection:
  "connection (release_connection s) =
     (if \<not> writer s then None else connection s)"
  by (simp add: release_connection_def add_done_callback_def split: option.splits)

lemma connection_release:
  "connection (release s) = (if \<not> writer s then None else connection s)"
  by (simp add: release_def Let_def connection_release_connection)

lemma run_callback_settled:
  assumes "\<not> writer x" "connection x = None"
  shows "pool (run_callback cb x) = pool x \<and> connection (run_callback cb x) = None \<and>
     \<not> writer (run_callback cb x)"
  using assms
  by (cases cb)
    (simp_all add: reset_writer_def pool_release_connection connection_release_connection
      pool_release connection_release)

lemma fold_run_callback_settled:
  "\<not> writer x \<Longrightarrow> connection x = None \<Longrightarrow>
   pool (fold run_callback cbs x) = pool x \<and> connection (fold run_callback cbs x) = None \<and>
   \<not> writer (fold run_callback cbs x)"
proof (induction cbs arbitrary: x)
  case Nil
  then show ?case by simp
next
  case (Cons cb cbs)
  from run_callback_settled [OF Cons.prems, of cb] Cons.IH [of "run_callback cb x"]
  show ?case by simp
qed

lemma fold_run_callback_releases:
  "\<not> writer x \<Longrightarrow> connection x \<noteq> None \<Longrightarrow> \<exists>cb\<in>set cbs. cb \<noteq> Reset_writer \<Longrightarrow>
   pool (fold run_callback cbs x) = pool x @ [ConnRelease] \<and>
   connection (fold run_callback cbs x) = None \<and> \<not> writer (fold run_callback cbs x)"
proof (induction cbs arbitrary: x)
  case Nil
  then show ?case by simp
next
  case (Cons cb cbs)
  show ?case
  proof (cases "cb = Reset_writer")
    case True
    have "reset_writer x = x" using Cons.prems(1) by (simp add: reset_writer_def)
    with True Cons show ?thesis by simp
  next
    case False
    let ?y = "run_callback cb x"
    have y: "pool ?y = pool x @ [ConnRelease]" "connection ?y = None" "\<not> writer ?y"
      using False Cons.prems(1,2)
      by (cases cb; simp add: pool_release_connection connection_release_connection
          pool_release connection_release)+
    from fold_run_callback_settled [OF y(3) y(2), of cbs] y show ?thesis by simp
  qed
qed

lemma deferred_then_released:
  assumes inv: "writer_invariant s" and nd: "\<not> task_done (task s)"
    and conn: "connection s \<noteq> None"
    and x: "x = release_connection (cleanup_writer base)"
    and base: "writer base = writer s" "pool base = pool s" "connection base = connection s"
      "ready base = ready s" "task base = task s"
  shows "writer s \<and> pool x = pool s \<and> connection x = connection s \<and>
     Release_connection \<in> set (callbacks (task x)) \<and>
     pool (run_ready (task_finish x)) = pool s @ [ConnRelease] \<and>
     \<not> writer (run_ready (task_finish x)) \<and>
     connection (run_ready (task_finish x)) = None"
proof -
  from inv nd have w: "writer s" and r: "ready s = []"
    and rf: "reset_first (callbacks (task s))"
    by (auto simp: writer_invariant_def)
  from rf obtain rest where cbs: "callbacks (task s) = Reset_writer # rest"
    by (auto simp: reset_first_Cons)
  from conn obtain c where c: "connection s = Some c" by auto
  have xs: "pool x = pool s" "connection x = connection s" "writer x" "ready x = []"
    "callbacks (task x) = Reset_writer # rest @ [Release_connection]"
    using w r cbs c nd base
    by (simp_all add: x release_connection_def add_done_callback_def cleanup_writer_def
        cancel_def Let_def)
  let ?f = "task_finish x"
  let ?y = "reset_writer (?f\<lparr>ready := []\<rparr>)"
  have run: "run_ready ?f = fold run_callback (rest @ [Release_connection]) ?y"
    using xs by (simp add: run_ready_def task_finish_def)
  have y: "\<not> writer ?y" "connection ?y \<noteq> None" "pool ?y = pool s"
    using xs c by (simp_all add: reset_writer_def task_finish_def)
  have "\<exists>cb\<in>set (rest @ [Release_connection]). cb \<noteq> Reset_writer" by simp
  from fold_run_callback_releases [OF y(1) y(2) this] y(3) run xs w
  show ?thesis by simp
qed

lemma release_deferred_then_released:
  assumes "writer_invariant s" "\<not> task_done (task s)" "connection s \<noteq> None"
  shows "writer s \<and> pool (release s) = pool s \<and> connection (release s) = connection s \<and>
     Release_connection \<in> set (callbacks (task (release s))) \<and>
     pool (run_ready (task_finish (release s))) = pool s @ [ConnRelease] \<and>
     \<not> writer (run_ready (task_finish (release s))) \<and>
     connection (run_ready (task_finish (release s))) = None"
  by (rule deferred_then_released [OF assms, where
        base = "(if \<not> released s then notify_content s else s)\<lparr>closed := True\<rparr>"])
    (simp_all add: release_def Let_def)

lemma response_eof_deferred_then_released:
  assumes "writer_invariant s" "\<not> task_done (task s)" "connection s \<noteq> None"
    and "\<not> closed s" "\<not> protocol_upgraded s"
  shows "writer s \<and> pool (response_eof s) = pool s \<and>
     connection (response_eof s) = connection s \<and>
     Release_connection \<in> set (callbacks (task (response_eof s))) \<and>
     pool (run_ready (task_finish (response_eof s))) = pool s @ [ConnRelease] \<and>
     \<not> writer (run_ready (task_finish (response_eof s))) \<and>
     connection (run_ready (task_finish (response_eof s))) = None"
  by (rule deferred_then_released [OF assms(1-3), where base = "s\<lparr>closed := True\<rparr>"])
    (simp_all add: response_eof_def assms(4,5))

text \<open>
  On every path but the finalizer the release waits for the writer: in every state a
  response can reach, a step other than the finalizer that hands the connection back
  starts from a state where the task has completed and the writer handle is cleared. When
  \<^verbatim>\<open>release()\<close>, or the end of the payload, comes while the task is in flight, the
  connection is not handed back and stays bound, and a done-callback that releases it
  joins the task's callbacks; once the task completes and the loop runs its callbacks,
  the handle is cleared and the connection is handed back, once.
\<close>

theorem release_deferred_until_writer_done:
  assumes "reachable s"
  shows "(\<forall>s'. step s s' \<and> releases s < releases s' \<and> s' \<noteq> del_finalizer s \<longrightarrow>
        task_done (task s) \<and> \<not> writer s) \<and>
     (\<not> task_done (task s) \<and> connection s \<noteq> None \<longrightarrow>
        writer s \<and> pool (release s) = pool s \<and> connection (release s) = connection s \<and>
        Release_connection \<in> set (callbacks (task (release s))) \<and>
        pool (run_ready (task_finish (release s))) = pool s @ [ConnRelease] \<and>
        \<not> writer (run_ready (task_finish (release s))) \<and>
        connection (run_ready (task_finish (release s))) = None) \<and>
     (\<not> task_done (task s) \<and> connection s \<noteq> None \<and> \<not> closed s \<and> \<not> protocol_upgraded s \<longrightarrow>
        writer s \<and> pool (response_eof s) = pool s \<and>
        connection (response_eof s) = connection s \<and>
        Release_connection \<in> set (callbacks (task (response_eof s))) \<and>
        pool (run_ready (task_finish (response_eof s))) = pool s @ [ConnRelease] \<and>
        \<not> writer (run_ready (task_finish (response_eof s))) \<and>
        connection (run_ready (task_finish (response_eof s))) = None)"
proof -
  note inv = reachable_writer_invariant [OF assms]
  have 2: "\<forall>s'. step s s' \<and> releases s < releases s' \<and> s' \<noteq> del_finalizer s \<longrightarrow>
      task_done (task s) \<and> \<not> writer s"
  proof (intro allI impI, elim conjE)
    fix s' assume "step s s'" "releases s < releases s'" "s' \<noteq> del_finalizer s"
    then have "\<not> writer s" using releases_grow_step by blast
    with inv show "task_done (task s) \<and> \<not> writer s" by (auto simp: writer_invariant_def)
  qed
  from 2 release_deferred_then_released [OF inv] response_eof_deferred_then_released [OF inv]
  show ?thesis by blast
qed

lemma release_deferred_example:
  "reachable example_started \<and> \<not> task_done (task example_started) \<and>
   pool (release example_started) = [] \<and>
   connection (release example_started) = Some example_connection \<and>
   Release_connection \<in> set (callbacks (task (release example_started))) \<and>
   pool (run_ready (task_finish (release example_started))) = [ConnRelease] \<and>
   connection (run_ready (task_finish (release example_started))) = None \<and>
   pool (response_eof example_started) = [] \<and>
   pool (run_ready (task_finish (response_eof example_started))) = [ConnRelease] \<and>
   reachable example_reset \<and> step example_reset example_pooled \<and>
   releases example_reset < releases example_pooled \<and>
   task_done (task example_reset) \<and> \<not> writer example_reset"
proof -
  note r1 = example_started_reachable
  have f: "\<not> task_done (task example_started)" "connection example_started = Some example_connection"
    "\<not> closed example_started" "\<not> protocol_upgraded example_started"
    "pool example_started = []"
    by code_simp+
  have r2: "reachable example_released"
    unfolding example_released_def using r1 step_release by (rule reachable_step)
  have "\<not> task_done (task example_released)" by code_simp
  then have "step example_released example_finished"
    unfolding example_finished_def by (rule step_task_finish)
  with r2 have r3: "reachable example_finished" by (rule reachable_step)
  have "ready example_finished = Reset_writer # [Release_connection]" by code_simp
  then have "step example_finished example_reset"
    unfolding example_reset_def by (rule step_callback)
  with r3 have r4: "reachable example_reset" by (rule reachable_step)
  have "ready example_reset = Release_connection # []" by code_simp
  then have s5: "step example_reset example_pooled"
    unfolding example_pooled_def by (rule step_callback)
  have g: "releases example_reset < releases example_pooled"
    "example_pooled \<noteq> del_finalizer example_reset" by code_simp+
  note a = release_deferred_until_writer_done [OF r1]
  note b = release_deferred_until_writer_done [OF r4, THEN conjunct1, rule_format, of example_pooled]
  from a f have 1: "pool (release example_started) = [] \<and>
   connection (release example_started) = Some example_connection \<and>
   Release_connection \<in> set (callbacks (task (release example_started))) \<and>
   pool (run_ready (task_finish (release example_started))) = [ConnRelease] \<and>
   connection (run_ready (task_finish (release example_started))) = None \<and>
   pool (response_eof example_started) = [] \<and>
   pool (run_ready (task_finish (response_eof example_started))) = [ConnRelease]"
    by simp
  from b s5 g have 2: "task_done (task example_reset) \<and> \<not> writer example_reset" by blast
  from r1 f(1) 1 r4 s5 g(1) 2 show ?thesis by blast
qed

lemma example_expect_started_reachable: "reachable example_expect_started"
proof -
  have r0: "reachable example_expect_response"
    unfolding example_expect_response_def
    by (rule reachable_init) (simp_all add: example_pending_task_def)
  have "\<exists>res. start example_connection [Parsed example_message example_stream]
      example_expect_response = Some (res, example_expect_started)"
    by (simp add: example_expect_started_def start_def example_message_def example_stream_def
        split: option.splits sum.splits prod.splits)
  then obtain res where
    "start example_connection [Parsed example_message example_stream] example_expect_response =
      Some (res, example_expect_started)" ..
  then have "step example_expect_response example_expect_started" by (rule step_start)
  with r0 show ?thesis by (rule reachable_step)
qed

text \<open>
  C1 fails on the code through the finalizer. A response to a request sent with
  \<^verbatim>\<open>Expect: 100-continue\<close> is started on its connection while the writer task is
  still suspended on the waiter; the response is not closed and its handle is set. When
  it is dropped, \<^verbatim>\<open>__del__\<close> calls \<^verbatim>\<open>connection.release()\<close> at once: the
  connection is handed back to the pool while the writer task has not completed, where
  \<^verbatim>\<open>_release_connection\<close> would have deferred the call.
\<close>

theorem finalizer_releases_in_flight:
  "reachable example_expect_started \<and> step example_expect_started (del_finalizer example_expect_started) \<and>
   reachable (del_finalizer example_expect_started) \<and>
   \<not> closed example_expect_started \<and> continue100 example_expect_started \<and>
   connection example_expect_started = Some example_connection \<and>
   writer example_expect_started \<and> \<not> task_done (task example_expect_started) \<and>
   pool example_expect_started = [] \<and>
   pool (del_finalizer example_expect_started) = [ConnRelease] \<and>
   writer (del_finalizer example_expect_started) \<and>
   \<not> task_done (task (del_finalizer example_expect_started)) \<and>
   pool (release example_expect_started) = []"
proof -
  note r = example_expect_started_reachable
  have s: "step example_expect_started (del_finalizer example_expect_started)"
    by (rule step_del)
  from r s have r': "reachable (del_finalizer example_expect_started)" by (rule reachable_step)
  have f: "\<not> closed example_expect_started" "continue100 example_expect_started"
    "connection example_expect_started = Some example_connection"
    "writer example_expect_started" "\<not> task_done (task example_expect_started)"
    "pool example_expect_started = []"
    "pool (del_finalizer example_expect_started) = [ConnRelease]"
    "writer (del_finalizer example_expect_started)"
    "\<not> task_done (task (del_finalizer example_expect_started))"
    "pool (release example_expect_started) = []"
    by code_simp+
  from r s r' f show ?thesis by (iprover intro: conjI)
qed

section \<open>raise\_for\_status\<close>

lemma release_keeps [simp]:
  "status (release s) = status s" "reason (release s) = reason s"
  "resp_headers (release s) = resp_headers s" "request_info (release s) = request_info s"
  "history (release s) = history s" "resp_body (release s) = resp_body s"
  "closed (release s)" "released (release s)"
  by (auto simp: release_def release_connection_def cleanup_writer_def cancel_def
      notify_content_def add_done_callback_def Let_def split: option.splits)



section \<open>get\_encoding\<close>




section \<open>read\<close>

lemma content_reads_fields [simp]:
  "content_reads (release_connection s) = content_reads s"
  "content_reads (cleanup_writer s) = content_reads s"
  "content_reads (notify_content s) = content_reads s"
  "content_reads (reset_writer s) = content_reads s"
  "content_reads (task_finish s) = content_reads s"
  "content_reads (s\<lparr>ready := r\<rparr>) = content_reads s"
  "content_reads (s\<lparr>closed := b\<rparr>) = content_reads s"
  by (auto simp: content_reads_def notify_content_def stream_set_exception_def Let_def
      reset_writer_def task_finish_def split: option.splits)

lemma content_reads_release [simp]: "content_reads (release s) = content_reads s"
  by (simp add: release_def Let_def)

lemma content_reads_run_callback [simp]: "content_reads (run_callback cb s) = content_reads s"
  by (cases cb) simp_all

lemma content_reads_fold [simp]: "content_reads (fold run_callback cbs s) = content_reads s"
  by (induction cbs arbitrary: s) simp_all

lemma content_reads_await_writer [simp]: "content_reads (await_writer s) = content_reads s"
  by (simp add: await_writer_def run_ready_def)

lemma resp_body_fields [simp]:
  "resp_body (reset_writer s) = resp_body s" "resp_body (task_finish s) = resp_body s"
  by (simp_all add: reset_writer_def task_finish_def)

lemma resp_body_run_callback [simp]: "resp_body (run_callback cb s) = resp_body s"
  by (cases cb) simp_all

lemma resp_body_fold [simp]: "resp_body (fold run_callback cbs s) = resp_body s"
  by (induction cbs arbitrary: s) simp_all

lemma resp_body_await_writer [simp]: "resp_body (await_writer s) = resp_body s"
  by (simp add: await_writer_def run_ready_def)

lemma writer_run_callback: "\<not> writer s \<Longrightarrow> \<not> writer (run_callback cb s)"
  by (cases cb) (simp_all add: reset_writer_def)

lemma writer_fold_reset:
  "\<not> writer s \<or> Reset_writer \<in> set cbs \<Longrightarrow> \<not> writer (fold run_callback cbs s)"
proof (induction cbs arbitrary: s)
  case Nil
  then show ?case by simp
next
  case (Cons cb cbs)
  show ?case
  proof (cases "cb = Reset_writer")
    case True
    then show ?thesis using Cons.IH [of "reset_writer s"] by (simp add: reset_writer_def)
  next
    case False
    with Cons.prems have "\<not> writer (run_callback cb s) \<or> Reset_writer \<in> set cbs"
      by (cases cb) auto
    then show ?thesis using Cons.IH [of "run_callback cb s"] by simp
  qed
qed

lemma writer_await_writer:
  assumes "writer_invariant s"
  shows "\<not> writer (await_writer s)"
proof (cases "task_done (task s)")
  case True
  with assms have "\<not> writer s \<or> Reset_writer \<in> set (ready s)"
    by (auto simp: writer_invariant_def reset_first_Cons)
  then show ?thesis
    using True writer_fold_reset [of "s\<lparr>ready := []\<rparr>" "ready s"]
    by (simp add: await_writer_def run_ready_def)
next
  case False
  with assms have "Reset_writer \<in> set (callbacks (task s))" "ready s = []"
    by (auto simp: writer_invariant_def reset_first_Cons)
  then show ?thesis
    using False writer_fold_reset [of "(task_finish s)\<lparr>ready := []\<rparr>" "callbacks (task s)"]
    by (simp add: await_writer_def run_ready_def task_finish_def)
qed

lemma wait_released_effect:
  "content_reads (snd (wait_released outcome s)) = content_reads s"
  "resp_body (snd (wait_released outcome s)) = resp_body s"
  by (simp_all add: wait_released_def Let_def split: option.splits)

lemma read_finish_effect:
  "content_reads (snd (read_finish env b s)) = content_reads s"
  "resp_body (snd (read_finish env b s)) = resp_body s"
  using wait_released_effect [of "writer_outcome env" s]
  by (auto simp: read_finish_def split: prod.splits option.splits)

lemma read_finish_result:
  "fst (read_finish env b s) =
     (if writer s \<and> \<not> protocol_upgraded s
      then (case writer_outcome env of Some e \<Rightarrow> Inl e | None \<Rightarrow> Inr b)
      else Inr b)"
  by (simp add: read_finish_def wait_released_def Let_def split: option.splits)

lemma read_finish_settled:
  assumes "writer_invariant s" "fst (read_finish env b s) = Inr b'"
  shows "\<not> writer (snd (read_finish env b s)) \<or> protocol_upgraded (snd (read_finish env b s))"
  using assms writer_await_writer [OF assms(1)]
  by (auto simp: read_finish_def wait_released_def Let_def split: option.splits if_splits)

lemma read_cached:
  assumes "resp_body s = Some b" "\<not> released s"
  shows "read env s = read_finish env b s"
  using assms by (simp add: read_def)

lemma read_Inr:
  assumes inv: "writer_invariant s" and ok: "fst (read env s) = Inr b"
  shows "resp_body (snd (read env s)) = Some b \<and>
     (\<not> writer (snd (read env s)) \<or> protocol_upgraded (snd (read env s)))"
proof (cases "resp_body s")
  case (Some b0)
  with ok have nr: "\<not> released s" by (auto simp: read_def split: if_splits)
  note r = read_cached [OF Some nr, of env]
  from ok have "b0 = b"
    unfolding r read_finish_result by (auto split: if_splits option.splits)
  with read_finish_settled [OF inv, of env b0 b] ok r read_finish_effect(2) [of env b0 s] Some
  show ?thesis by simp
next
  case None
  obtain out s1 where c: "content_read s = (out, s1)" by (cases "content_read s")
  from writer_invariant_content_read [OF inv] c have inv1: "writer_invariant s1" by simp
  show ?thesis
  proof (cases out)
    case (Inl e)
    with ok None c show ?thesis by (simp add: read_def)
  next
    case (Inr data)
    let ?s2 = "s1\<lparr>resp_body := Some data\<rparr>"
    have inv2: "writer_invariant ?s2" using inv1 by (simp add: writer_invariant_def)
    from ok None c Inr have t: "trace_error env = None"
      by (auto simp: read_def Let_def split: option.splits)
    then have r: "read env s = read_finish env data ?s2"
      using None c Inr by (simp add: read_def Let_def)
    from ok have "data = b"
      unfolding r read_finish_result by (auto split: if_splits option.splits)
    with read_finish_settled [OF inv2, of env data b] ok r read_finish_effect(2) [of env data ?s2]
    show ?thesis by simp
  qed
qed

lemma read_twice:
  assumes "reachable s" "fst (read env s) = Inr b" "\<not> released (snd (read env s))"
  shows "fst (read env' (snd (read env s))) = Inr b \<and>
     content_reads (snd (read env' (snd (read env s)))) = content_reads (snd (read env s))"
proof -
  let ?s1 = "snd (read env s)"
  from read_Inr [OF reachable_writer_invariant [OF assms(1)] assms(2)]
  have b: "resp_body ?s1 = Some b" and w: "\<not> writer ?s1 \<or> protocol_upgraded ?s1"
    by simp_all
  note r = read_cached [OF b assms(3), of env']
  show ?thesis
    unfolding r using w read_finish_result [of env' b ?s1] read_finish_effect(1) [of env' b ?s1]
    by auto
qed

lemma content_notify_content:
  "content s = Some c \<Longrightarrow> \<not> stream_empty c \<Longrightarrow>
   content (notify_content s) =
     Some (c\<lparr>stream_exception :=
       Some (case stream_exception c of
               None \<Rightarrow> ClientConnectionError ''Connection closed'' | Some e \<Rightarrow> e)\<rparr>)"
  by (auto simp: notify_content_def exception_of_def stream_set_exception_def Let_def)

lemma content_notify_content_empty:
  "content s = Some c \<Longrightarrow> stream_empty c \<Longrightarrow> content (notify_content s) = Some c"
  by (auto simp: notify_content_def exception_of_def stream_set_exception_def Let_def)

lemma read_after_release_empty:
  assumes "\<not> released s" "content s = Some c" "resp_body s = None" "stream_empty c"
    "trace_error env = None" "writer_outcome env = None"
  shows "fst (read env (release s)) = Inr []"
proof -
  have "content (release s) = content (notify_content s)"
    using assms(1)
    by (simp add: release_def Let_def release_connection_def add_done_callback_def
        cleanup_writer_def cancel_def split: option.splits)
  then have c: "content (release s) = Some c"
    using content_notify_content_empty [OF assms(2) assms(4)] by simp
  have b: "resp_body (release s) = None"
    using assms(3)
    by (simp add: release_def Let_def release_connection_def add_done_callback_def
        cleanup_writer_def cancel_def notify_content_def split: option.splits)
  obtain s1 where cr: "content_read (release s) = (Inr [], s1)"
    using c assms(4) by (simp add: content_read_def Let_def)
  have "read env (release s) = read_finish env [] (s1\<lparr>resp_body := Some []\<rparr>)"
    using b cr assms(5) by (simp add: read_def Let_def)
  then show ?thesis
    using read_finish_result [of env "[]" "s1\<lparr>resp_body := Some []\<rparr>"] assms(6) by simp
qed

lemma read_after_release:
  assumes "\<not> released s" "content s = Some c" "resp_body s = None" "\<not> stream_empty c"
  shows "released (release s) \<and> resp_body (release s) = None \<and>
     fst (read env (release s)) =
       Inl (case stream_exception c of
              None \<Rightarrow> ClientConnectionError ''Connection closed'' | Some e \<Rightarrow> e)"
proof -
  have "content (release s) = content (notify_content s)"
    using assms(1)
    by (simp add: release_def Let_def release_connection_def add_done_callback_def
        cleanup_writer_def cancel_def split: option.splits)
  then have c: "content (release s) =
     Some (c\<lparr>stream_exception :=
       Some (case stream_exception c of
               None \<Rightarrow> ClientConnectionError ''Connection closed'' | Some e \<Rightarrow> e)\<rparr>)"
    using content_notify_content [OF assms(2) assms(4)] by simp
  have "fst (content_read (release s)) =
       Inl (case stream_exception c of
              None \<Rightarrow> ClientConnectionError ''Connection closed'' | Some e \<Rightarrow> e)"
    using assms(4) by (simp add: content_read_def c Let_def)
  then obtain s1 where "content_read (release s) =
       (Inl (case stream_exception c of
               None \<Rightarrow> ClientConnectionError ''Connection closed'' | Some e \<Rightarrow> e), s1)"
    by (cases "content_read (release s)") simp
  then show ?thesis
    using assms(3) by (simp add: read_def)
qed

text \<open>
  C7, as the code has it. When a \<^verbatim>\<open>read()\<close> has returned the body and the response
  has not been explicitly released, a second \<^verbatim>\<open>read()\<close> returns the identical cached
  bytes and calls the content stream's \<^verbatim>\<open>read()\<close> no further time; more generally a
  \<^verbatim>\<open>read()\<close> on a cached body never reads the stream, and returns the cached bytes
  whenever no writer task is pending, the connection was upgraded, or the pending task
  raises nothing. A started response whose payload is not the empty payload, released
  before any body was cached, fails a subsequent \<^verbatim>\<open>read()\<close>: with the
  connection-closed error when the content stream had stored no exception before the
  release, otherwise with the exception the stream had already stored. A started response
  with the empty payload (a response without a body), released before any body was
  cached, does not fail: the empty payload stores no exception, and a subsequent
  \<^verbatim>\<open>read()\<close> returns the empty bytes when the trace hook and the writer task raise
  nothing.
\<close>

theorem read_cached_or_released:
  "(reachable s \<and> fst (read env s) = Inr b \<and> \<not> released (snd (read env s)) \<longrightarrow>
      fst (read env' (snd (read env s))) = Inr b \<and>
      content_reads (snd (read env' (snd (read env s)))) = content_reads (snd (read env s))) \<and>
   (resp_body s = Some b \<and> \<not> released s \<longrightarrow>
      content_reads (snd (read env s)) = content_reads s \<and>
      (\<not> writer s \<or> protocol_upgraded s \<or> writer_outcome env = None
         \<longrightarrow> fst (read env s) = Inr b)) \<and>
   (\<not> released s \<and> content s = Some c \<and> resp_body s = None \<and> \<not> stream_empty c \<longrightarrow>
      released (release s) \<and> resp_body (release s) = None \<and>
      fst (read env (release s)) =
        Inl (case stream_exception c of
               None \<Rightarrow> ClientConnectionError ''Connection closed'' | Some e \<Rightarrow> e)) \<and>
   (\<not> released s \<and> content s = Some c \<and> resp_body s = None \<and> stream_empty c \<and>
    trace_error env = None \<and> writer_outcome env = None \<longrightarrow>
      fst (read env (release s)) = Inr [])"
proof -
  have 2: "content_reads (snd (read env s)) = content_reads s \<and>
      (\<not> writer s \<or> protocol_upgraded s \<or> writer_outcome env = None
         \<longrightarrow> fst (read env s) = Inr b)"
    if "resp_body s = Some b" "\<not> released s"
    unfolding read_cached [OF that]
    using read_finish_result [of env b s] read_finish_effect(1) [of env b s] by auto
  from read_twice [of s env b env'] 2 read_after_release [of s c env]
    read_after_release_empty [of s c env]
  show ?thesis by blast
qed

theorem read_cached_or_released_witness:
  "fst (read example_env example_started) = Inr ''hello'' \<and>
   fst (read example_env (snd (read example_env example_started))) = Inr ''hello'' \<and>
   content_reads (snd (read example_env (snd (read example_env example_started)))) = 1 \<and>
   released (release example_started) \<and>
   fst (read example_env (release example_started)) =
     Inl (ClientConnectionError ''Connection closed'') \<and>
   fst (read example_env (release example_no_content)) = Inr []"
proof -
  let ?s1 = "snd (read example_env example_started)"
  note r1 = example_started_reachable
  have f: "fst (read example_env example_started) = Inr ''hello''" "\<not> released ?s1"
    "content_reads ?s1 = 1" "resp_body ?s1 = Some ''hello''"
    "writer_outcome example_env = None"
    by code_simp+
  have g: "\<not> released example_started" "content example_started = Some example_stream"
    "resp_body example_started = None" "stream_exception example_stream = None"
    "\<not> stream_empty example_stream"
    by code_simp+
  have h: "\<not> released example_no_content"
    "content example_no_content = Some example_empty_stream"
    "resp_body example_no_content = None"
    "stream_empty example_empty_stream"
    "trace_error example_env = None"
    by code_simp+
  note t1 = read_cached_or_released [of example_started example_env "''hello''" example_env,
      THEN conjunct1]
  note t2 = read_cached_or_released [of ?s1 example_env "''hello''",
      THEN conjunct2, THEN conjunct1]
  note t3 = read_cached_or_released [of example_started example_env _ _ example_stream,
      THEN conjunct2, THEN conjunct2, THEN conjunct1]
  note t4 = read_cached_or_released [of example_no_content example_env _ _
      example_empty_stream, THEN conjunct2, THEN conjunct2, THEN conjunct2]
  from t1 r1 f have 1: "fst (read example_env ?s1) = Inr ''hello'' \<and>
      content_reads (snd (read example_env ?s1)) = 1" by simp
  from t2 f have 2: "content_reads (snd (read example_env ?s1)) = content_reads ?s1" by simp
  from t3 g have 3: "released (release example_started) \<and>
      fst (read example_env (release example_started)) =
        Inl (ClientConnectionError ''Connection closed'')" by simp
  from t4 h f(5) have 4: "fst (read example_env (release example_no_content)) = Inr []" by simp
  from f(1) 1 2 3 4 show ?thesis by (iprover intro: conjI)
qed

text \<open>
  C7 as stated fails on the code: a started response whose content stream had already
  stored a failure is released before any body was cached, and the subsequent
  \<^verbatim>\<open>read()\<close> raises the stored failure, not the connection-closed error
  (\<^verbatim>\<open>_notify_content\<close> leaves a stream that already holds an exception as it is).
\<close>

theorem read_after_release_counterexample:
  "\<not> released example_payload_failed \<and> resp_body example_payload_failed = None \<and>
   released (release example_payload_failed) \<and>
   resp_body (release example_payload_failed) = None \<and>
   fst (read example_env (release example_payload_failed)) =
     Inl (OtherException ''Response payload is not completed'') \<and>
   fst (read example_env (release example_payload_failed)) \<noteq>
     Inl (ClientConnectionError ''Connection closed'')"
  by code_simp

section \<open>The body writer\<close>

lemma write_chunks_keeps:
  "eof_written (snd (write_chunks res n cs w)) = eof_written w"
  "timeout_started (snd (write_chunks res n cs w)) = timeout_started w"
  "protocol_exception (snd (write_chunks res n cs w)) = protocol_exception w"
  by (induction res n cs w rule: write_chunks.induct; simp split: option.splits)+

lemma await_continue_passes:
  "continue_passes env r \<Longrightarrow>
   await_continue env r w = Inr (if continue_waiter r then w\<lparr>drains := drains w + 1\<rparr> else w)"
  by (simp add: continue_passes_def await_continue_def Let_def)

lemma write_bytes_streaming:
  assumes "continue_passes env r" and "conn_protocol conn \<noteq> None"
  shows "write_bytes env r conn w =
     (case streaming env r w of
        (None, w2) \<Rightarrow>
          (case write_eof env w2 of
             (Some e, w3) \<Rightarrow> (Some e, w3)
           | (None, w3) \<Rightarrow> (None, w3\<lparr>timeout_started := True\<rparr>))
      | (Some e, w2) \<Rightarrow>
          (case os_error e of
             Some (errno, timeout) \<Rightarrow>
               (None, set_exception
                  (if errno \<noteq> None \<or> \<not> timeout
                   then ClientOSError errno
                     (''Can not write request body for '' @ url_str env (url r))
                   else e) e w2)
           | None \<Rightarrow>
               if e = CancelledError then write_eof env w2
               else if is_exception e then
                 (None, set_exception
                    (ClientConnectionError
                       (''Failed to send bytes into the underlying connection '' @
                        conn_str env conn)) e w2)
               else (Some e, w2)))"
  using assms
  by (auto simp: write_bytes_def await_continue_passes streaming_def Let_def
      split: option.splits prod.splits)

lemma os_error_timeout: "os_error e = Some (None, True) \<longleftrightarrow> e = OSError None True"
  by (cases e) auto

text \<open>
  C6, as the code has it. Only a failure of a chunk write that is an instance of
  \<^verbatim>\<open>Exception\<close> is deferred. When the 100-continue wait (if any) has passed and
  the connection has its protocol: such a failure while the chunks of the body are
  written is stored in the protocol's deferred-exception
  slot and \<^verbatim>\<open>write_bytes\<close> returns normally, with no end-of-body marker written and
  no timer started. An OS error classified as a timeout (no \<^verbatim>\<open>errno\<close>, an instance
  of \<^verbatim>\<open>asyncio.TimeoutError\<close>) is stored as it is; any other OS error is stored
  wrapped in a client OS error with its \<^verbatim>\<open>errno\<close> and a message naming the URL;
  any other exception (any instance of \<^verbatim>\<open>Exception\<close>; a cancellation has its own
  handler) is stored wrapped in a connection error. When the streaming succeeds, the
  end-of-body marker is written and, \<^verbatim>\<open>write_eof\<close> having returned, the response
  timeout timer is started.
\<close>

theorem write_bytes_defers_errors:
  assumes "continue_passes env r" and "conn_protocol conn \<noteq> None"
  shows "(streaming env r w = (Some e, w2) \<and> os_error e = Some (None, True) \<longrightarrow>
        e = OSError None True \<and>
        write_bytes env r conn w = (None, w2\<lparr>protocol_exception := Some (e, e)\<rparr>)) \<and>
     (streaming env r w = (Some e, w2) \<and> os_error e = Some (errno, timeout) \<and>
      (errno \<noteq> None \<or> \<not> timeout) \<longrightarrow>
        write_bytes env r conn w =
          (None, w2\<lparr>protocol_exception :=
             Some (ClientOSError errno
                     (''Can not write request body for '' @ url_str env (url r)), e)\<rparr>)) \<and>
     (streaming env r w = (Some e, w2) \<and> os_error e = None \<and> is_exception e \<longrightarrow>
        write_bytes env r conn w =
          (None, w2\<lparr>protocol_exception :=
             Some (ClientConnectionError
                     (''Failed to send bytes into the underlying connection '' @
                      conn_str env conn), e)\<rparr>)) \<and>
     (streaming env r w = (Some e, w2) \<and> is_exception e \<longrightarrow>
        fst (write_bytes env r conn w) = None \<and>
        protocol_exception (snd (write_bytes env r conn w)) \<noteq> None \<and>
        eof_written (snd (write_bytes env r conn w)) = eof_written w \<and>
        timeout_started (snd (write_bytes env r conn w)) = timeout_started w) \<and>
     (streaming env r w = (None, w2) \<and> eof_result env = None \<longrightarrow>
        write_bytes env r conn w = (None, w2\<lparr>eof_written := True, timeout_started := True\<rparr>))"
proof -
  note wb = write_bytes_streaming [OF assms, of w]
  have 1: "e = OSError None True \<and>
        write_bytes env r conn w = (None, w2\<lparr>protocol_exception := Some (e, e)\<rparr>)"
    if "streaming env r w = (Some e, w2)" "os_error e = Some (None, True)"
    using that os_error_timeout [of e] by (simp add: wb set_exception_def)
  have 2: "write_bytes env r conn w =
          (None, w2\<lparr>protocol_exception :=
             Some (ClientOSError errno
                     (''Can not write request body for '' @ url_str env (url r)), e)\<rparr>)"
    if "streaming env r w = (Some e, w2)" "os_error e = Some (errno, timeout)"
      "errno \<noteq> None \<or> \<not> timeout"
    using that by (auto simp: wb set_exception_def)
  have 3: "write_bytes env r conn w =
          (None, w2\<lparr>protocol_exception :=
             Some (ClientConnectionError
                     (''Failed to send bytes into the underlying connection '' @
                      conn_str env conn), e)\<rparr>)"
    if "streaming env r w = (Some e, w2)" "os_error e = None" "is_exception e"
    using that by (auto simp: wb set_exception_def)
  have 4: "fst (write_bytes env r conn w) = None \<and>
        protocol_exception (snd (write_bytes env r conn w)) \<noteq> None \<and>
        eof_written (snd (write_bytes env r conn w)) = eof_written w \<and>
        timeout_started (snd (write_bytes env r conn w)) = timeout_started w"
    if s: "streaming env r w = (Some e, w2)" and ex: "is_exception e"
  proof -
    from s have k: "eof_written w2 = eof_written w" "timeout_started w2 = timeout_started w"
      using write_chunks_keeps(1,2) [of "write_result env" 0 "body_chunks (body r)"
          "if continue_waiter r then w\<lparr>drains := drains w + 1\<rparr> else w"]
      by (simp_all add: streaming_def split: if_splits)
    from ex have "e \<noteq> CancelledError" by auto
    with s ex k show ?thesis
      by (auto simp: wb set_exception_def split: option.splits)
  qed
  have 5: "write_bytes env r conn w = (None, w2\<lparr>eof_written := True, timeout_started := True\<rparr>)"
    if "streaming env r w = (None, w2)" "eof_result env = None"
    using that by (simp add: wb write_eof_def)
  from 1 2 3 4 5 show ?thesis by blast
qed

theorem write_bytes_defers_errors_witness:
  "write_bytes (example_fail_env (OSError None True)) example_body_post example_connection
     example_wire =
     (None, example_wire\<lparr>written := [''he''],
        protocol_exception := Some (OSError None True, OSError None True)\<rparr>) \<and>
   write_bytes (example_fail_env (OSError (Some 32) False)) example_body_post example_connection
     example_wire =
     (None, example_wire\<lparr>written := [''he''],
        protocol_exception :=
          Some (ClientOSError (Some 32) ''Can not write request body for http://example.com/'',
                OSError (Some 32) False)\<rparr>) \<and>
   write_bytes (example_fail_env (ValueError ''boom'')) example_body_post example_connection
     example_wire =
     (None, example_wire\<lparr>written := [''he''],
        protocol_exception :=
          Some (ClientConnectionError
                  ''Failed to send bytes into the underlying connection Connection<example.com:80>'',
                ValueError ''boom'')\<rparr>) \<and>
   write_bytes example_write_env example_body_post example_connection example_wire =
     (None, example_wire\<lparr>written := [''he'', ''llo''], eof_written := True,
        timeout_started := True\<rparr>)"
proof -
  let ?t = "OSError None True" and ?p = "OSError (Some 32) False" and ?v = "ValueError ''boom''"
  let ?w2 = "example_wire\<lparr>written := [''he'']\<rparr>"
  have np: "conn_protocol example_connection \<noteq> None" by (simp add: example_connection_def)
  have cp: "continue_passes (example_fail_env e) example_body_post"
    "continue_passes example_write_env example_body_post" for e
    by (simp_all add: continue_passes_def example_body_post_def example_post_def example_get_def)
  have st: "streaming (example_fail_env ?t) example_body_post example_wire = (Some ?t, ?w2)"
    "streaming (example_fail_env ?p) example_body_post example_wire = (Some ?p, ?w2)"
    "streaming (example_fail_env ?v) example_body_post example_wire = (Some ?v, ?w2)"
    "streaming example_write_env example_body_post example_wire =
       (None, example_wire\<lparr>written := [''he'', ''llo'']\<rparr>)"
    by code_simp+
  have cl: "os_error ?t = Some (None, True)" "os_error ?p = Some (Some 32, False)"
    "os_error ?v = None" "is_exception ?v"
    by simp_all
  have pr: "url_str (example_fail_env ?p) (url example_body_post) = ''http://example.com/''"
    "conn_str (example_fail_env ?v) example_connection = ''Connection<example.com:80>''"
    "eof_result example_write_env = None"
    by (simp_all add: example_fail_env_def example_write_env_def)
  have 1: "write_bytes (example_fail_env ?t) example_body_post example_connection example_wire =
     (None, example_wire\<lparr>written := [''he''], protocol_exception := Some (?t, ?t)\<rparr>)"
    using write_bytes_defers_errors [OF cp(1) np, of ?t example_wire ?t ?w2, THEN conjunct1]
      st(1) cl(1) by simp
  have 2: "write_bytes (example_fail_env ?p) example_body_post example_connection example_wire =
     (None, example_wire\<lparr>written := [''he''],
        protocol_exception :=
          Some (ClientOSError (Some 32) ''Can not write request body for http://example.com/'',
                ?p)\<rparr>)"
    using write_bytes_defers_errors [OF cp(1) np, of ?p example_wire ?p ?w2 "Some 32" False,
        THEN conjunct2, THEN conjunct1] st(2) cl(2) pr(1) by simp
  have 3: "write_bytes (example_fail_env ?v) example_body_post example_connection example_wire =
     (None, example_wire\<lparr>written := [''he''],
        protocol_exception :=
          Some (ClientConnectionError
                  ''Failed to send bytes into the underlying connection Connection<example.com:80>'',
                ?v)\<rparr>)"
    using write_bytes_defers_errors [OF cp(1) np, of ?v example_wire ?v ?w2,
        THEN conjunct2, THEN conjunct2, THEN conjunct1] st(3) cl(3,4) pr(2) by simp
  have 4: "write_bytes example_write_env example_body_post example_connection example_wire =
     (None, example_wire\<lparr>written := [''he'', ''llo''], eof_written := True,
        timeout_started := True\<rparr>)"
    using write_bytes_defers_errors [OF cp(2) np, of example_wire _
        "example_wire\<lparr>written := [''he'', ''llo'']\<rparr>",
        THEN conjunct2, THEN conjunct2, THEN conjunct2, THEN conjunct2] st(4) pr(3) by simp
  from 1 2 3 4 show ?thesis by (iprover intro: conjI)
qed

text \<open>
  C6 as stated fails on the code: both chunks of the body are written, then
  \<^verbatim>\<open>writer.write_eof()\<close> fails with a broken pipe. The call stands in the
  \<^verbatim>\<open>else\<close> clause, outside the three handlers: the error leaves
  \<^verbatim>\<open>write_bytes\<close> as the exception of the writer task, nothing is stored in the
  protocol's deferred-exception slot, and the timer is not started.
\<close>

theorem write_bytes_eof_counterexample:
  "continue_passes (example_write_env\<lparr>eof_result := Some (OSError (Some 32) False)\<rparr>)
     example_body_post \<and>
   conn_protocol example_connection \<noteq> None \<and>
   streaming (example_write_env\<lparr>eof_result := Some (OSError (Some 32) False)\<rparr>)
     example_body_post example_wire =
     (None, example_wire\<lparr>written := [''he'', ''llo'']\<rparr>) \<and>
   write_bytes (example_write_env\<lparr>eof_result := Some (OSError (Some 32) False)\<rparr>)
     example_body_post example_connection example_wire =
     (Some (OSError (Some 32) False), example_wire\<lparr>written := [''he'', ''llo'']\<rparr>) \<and>
   protocol_exception
     (snd (write_bytes (example_write_env\<lparr>eof_result := Some (OSError (Some 32) False)\<rparr>)
        example_body_post example_connection example_wire)) = None"
  by code_simp

text \<open>
  The same holds before the body: with a 100-continue waiter, a \<^verbatim>\<open>writer.drain()\<close>
  that fails with an error other than a cancellation leaves \<^verbatim>\<open>write_bytes\<close> as the
  exception of the task, nothing stored and nothing written.
\<close>

lemma write_bytes_drain_failure_example:
  "write_bytes (example_write_env\<lparr>drain_result := Some (OSError (Some 32) False)\<rparr>)
     (example_body_post\<lparr>continue_waiter := True\<rparr>) example_connection example_wire =
     (Some (OSError (Some 32) False), example_wire)"
  by code_simp

end
